theory Spec2Isabelle
  imports Main "HOL-Library.Word" "HOL-Library.Sublist"
begin

section \<open>JavaScript strings\<close>

text \<open>
  The requester is TypeScript. A JavaScript string is a sequence of UTF-16 code units;
  \<open>.length\<close>, \<open>indexOf\<close>, \<open>slice\<close>, \<open>includes\<close> and the regular expressions of the
  source all count and compare code units. Strings are therefore lists of 16-bit words.
  \<open>js\<close> embeds an ASCII literal.
\<close>

type_synonym code_unit = "16 word"
type_synonym jsstring = "code_unit list"

definition js :: "string \<Rightarrow> jsstring" where
  "js s = map of_char s"

fun str_startsWith :: "jsstring \<Rightarrow> jsstring \<Rightarrow> bool" where
  "str_startsWith s [] = True"
| "str_startsWith [] (p # ps) = False"
| "str_startsWith (c # cs) (p # ps) = (c = p \<and> str_startsWith cs ps)"

definition str_endsWith :: "jsstring \<Rightarrow> jsstring \<Rightarrow> bool" where
  "str_endsWith s p = str_startsWith (rev s) (rev p)"

fun str_includes :: "jsstring \<Rightarrow> jsstring \<Rightarrow> bool" where
  "str_includes [] n = (n = [])"
| "str_includes (c # cs) n = (str_startsWith (c # cs) n \<or> str_includes cs n)"

text \<open>\<open>indexOf\<close>: the first position of the needle; \<open>None\<close> stands for \<open>-1\<close>.\<close>

fun str_indexOf :: "jsstring \<Rightarrow> jsstring \<Rightarrow> nat option" where
  "str_indexOf [] n = (if n = [] then Some 0 else None)"
| "str_indexOf (c # cs) n =
     (if str_startsWith (c # cs) n then Some 0 else map_option Suc (str_indexOf cs n))"

fun str_join :: "jsstring \<Rightarrow> jsstring list \<Rightarrow> jsstring" where
  "str_join sep [] = []"
| "str_join sep [x] = x"
| "str_join sep (x # y # ys) = x @ sep @ str_join sep (y # ys)"

text \<open>
  \<open>toLowerCase\<close> on the ASCII letters. ECMAScript also maps letters outside ASCII; the
  only characters it maps into ASCII are U+212A (to \<open>k\<close>) and U+0130 (to \<open>i\<close> followed by
  U+0307), and none of the media types the source looks for contains a \<open>k\<close> or can match
  across a combining dot, so code units outside \<open>A\<close>..\<open>Z\<close> are left as they are.
\<close>

definition lower_unit :: "code_unit \<Rightarrow> code_unit" where
  "lower_unit c = (if 0x41 \<le> c \<and> c \<le> 0x5A then c + 0x20 else c)"

definition str_toLowerCase :: "jsstring \<Rightarrow> jsstring" where
  "str_toLowerCase s = map lower_unit s"

text \<open>\<open>trim\<close> removes ECMAScript white space and line terminators at both ends.\<close>

definition is_js_space :: "code_unit \<Rightarrow> bool" where
  "is_js_space c \<longleftrightarrow>
     (0x09 \<le> c \<and> c \<le> 0x0D) \<or> c = 0x20 \<or> c = 0xA0 \<or> c = 0x1680 \<or>
     (0x2000 \<le> c \<and> c \<le> 0x200A) \<or> c = 0x2028 \<or> c = 0x2029 \<or> c = 0x202F \<or>
     c = 0x205F \<or> c = 0x3000 \<or> c = 0xFEFF"

definition str_trim :: "jsstring \<Rightarrow> jsstring" where
  "str_trim s = rev (dropWhile is_js_space (rev (dropWhile is_js_space s)))"

text \<open>\<open>Number.prototype.toString\<close> on a non-negative integer: its decimal digits.\<close>

fun decimal :: "nat \<Rightarrow> jsstring" where
  "decimal n = (if n < 10 then [of_nat (48 + n)] else decimal (n div 10) @ [of_nat (48 + n mod 10)])"

declare decimal.simps [simp del]

subsection \<open>Surrogates, UTF-8 and percent-encoding\<close>

definition is_high_surrogate :: "code_unit \<Rightarrow> bool" where
  "is_high_surrogate c \<longleftrightarrow> 0xD800 \<le> c \<and> c \<le> 0xDBFF"

definition is_low_surrogate :: "code_unit \<Rightarrow> bool" where
  "is_low_surrogate c \<longleftrightarrow> 0xDC00 \<le> c \<and> c \<le> 0xDFFF"

definition pair_code_point :: "code_unit \<Rightarrow> code_unit \<Rightarrow> nat" where
  "pair_code_point hi lo = 0x10000 + (unat hi - 0xD800) * 0x400 + (unat lo - 0xDC00)"

definition utf8_octets :: "nat \<Rightarrow> nat list" where
  "utf8_octets cp =
     (if cp < 0x80 then [cp]
      else if cp < 0x800 then [0xC0 + cp div 0x40, 0x80 + cp mod 0x40]
      else if cp < 0x10000 then
        [0xE0 + cp div 0x1000, 0x80 + (cp div 0x40) mod 0x40, 0x80 + cp mod 0x40]
      else
        [0xF0 + cp div 0x40000, 0x80 + (cp div 0x1000) mod 0x40,
         0x80 + (cp div 0x40) mod 0x40, 0x80 + cp mod 0x40])"

definition hex_upper :: "nat \<Rightarrow> code_unit" where
  "hex_upper d = (if d < 10 then of_nat (48 + d) else of_nat (55 + d))"

definition hex_lower :: "nat \<Rightarrow> code_unit" where
  "hex_lower d = (if d < 10 then of_nat (48 + d) else of_nat (87 + d))"

definition percent_octet :: "nat \<Rightarrow> jsstring" where
  "percent_octet b = [0x25, hex_upper (b div 16), hex_upper (b mod 16)]"

definition uri_unreserved :: "code_unit \<Rightarrow> bool" where
  "uri_unreserved c \<longleftrightarrow>
     (0x41 \<le> c \<and> c \<le> 0x5A) \<or> (0x61 \<le> c \<and> c \<le> 0x7A) \<or> (0x30 \<le> c \<and> c \<le> 0x39) \<or>
     c \<in> set (js ''-_.!~*()'') \<or> c = 0x27"

text \<open>
  \<open>encodeURIComponent\<close>: unreserved code units are kept, every other code point is
  written as the percent-escaped octets of its UTF-8 form. A surrogate without its
  partner makes the builtin throw \<open>URIError\<close>: the result is \<open>None\<close> there.
\<close>

fun encodeURIComponent :: "jsstring \<Rightarrow> jsstring option" where
  "encodeURIComponent [] = Some []"
| "encodeURIComponent (c # cs) =
     (if uri_unreserved c then map_option ((#) c) (encodeURIComponent cs)
      else if is_high_surrogate c then
        (case cs of
           [] \<Rightarrow> None
         | d # ds \<Rightarrow>
             if is_low_surrogate d
             then map_option ((@) (concat (map percent_octet (utf8_octets (pair_code_point c d)))))
                    (encodeURIComponent ds)
             else None)
      else if is_low_surrogate c then None
      else map_option ((@) (concat (map percent_octet (utf8_octets (unat c)))))
             (encodeURIComponent cs))"

text \<open>
  The number of octets of the string on the wire, in UTF-8 (a surrogate without its
  partner is sent as U+FFFD, three octets).
\<close>

fun utf8_length :: "jsstring \<Rightarrow> nat" where
  "utf8_length [] = 0"
| "utf8_length [c] = (if c < 0x80 then 1 else if c < 0x800 then 2 else 3)"
| "utf8_length (c # d # ds) =
     (if is_high_surrogate c \<and> is_low_surrogate d then 4 + utf8_length ds
      else (if c < 0x80 then 1 else if c < 0x800 then 2 else 3) + utf8_length (d # ds))"

subsection \<open>Regular expressions\<close>

text \<open>
  The source tests bodies against a regular expression anchored at both ends. The
  expression is kept as a term and matched by derivatives; \<open>lang\<close> is its meaning.
\<close>

datatype rexp =
    Never
  | Empty
  | Unit "code_unit \<Rightarrow> bool"
  | Alt rexp rexp
  | Seq rexp rexp
  | Star rexp

fun nullable :: "rexp \<Rightarrow> bool" where
  "nullable Never = False"
| "nullable Empty = True"
| "nullable (Unit P) = False"
| "nullable (Alt r s) = (nullable r \<or> nullable s)"
| "nullable (Seq r s) = (nullable r \<and> nullable s)"
| "nullable (Star r) = True"

fun deriv :: "code_unit \<Rightarrow> rexp \<Rightarrow> rexp" where
  "deriv c Never = Never"
| "deriv c Empty = Never"
| "deriv c (Unit P) = (if P c then Empty else Never)"
| "deriv c (Alt r s) = Alt (deriv c r) (deriv c s)"
| "deriv c (Seq r s) =
     (if nullable r then Alt (Seq (deriv c r) s) (deriv c s) else Seq (deriv c r) s)"
| "deriv c (Star r) = Seq (deriv c r) (Star r)"

fun rexp_test :: "rexp \<Rightarrow> jsstring \<Rightarrow> bool" where
  "rexp_test r [] = nullable r"
| "rexp_test r (c # cs) = rexp_test (deriv c r) cs"

inductive_set star_lang :: "jsstring set \<Rightarrow> jsstring set" for A :: "jsstring set" where
  star_nil: "[] \<in> star_lang A"
| star_app: "u \<in> A \<Longrightarrow> v \<in> star_lang A \<Longrightarrow> u @ v \<in> star_lang A"

fun lang :: "rexp \<Rightarrow> jsstring set" where
  "lang Never = {}"
| "lang Empty = {[]}"
| "lang (Unit P) = {[c] | c. P c}"
| "lang (Alt r s) = lang r \<union> lang s"
| "lang (Seq r s) = {u @ v | u v. u \<in> lang r \<and> v \<in> lang s}"
| "lang (Star r) = star_lang (lang r)"

section \<open>JSON values and the JSON builtins\<close>

text \<open>
  \<open>JSON.parse\<close> and \<open>JSON.stringify\<close> are builtins of the platform. They are modelled
  after the JSON grammar of ECMA-404 and the \<open>JSON\<close> object of ECMA-262. A number keeps
  the text it was written with: its conversion to and from a double is floating point
  and is left to the runtime (see \<open>number_text\<close> below).

  An object is the list of its own properties in the order in which JavaScript
  enumerates them: array indices first, in ascending order, then the other keys in the
  order of their creation.
\<close>

datatype json =
    JNull
  | JBool bool
  | JNum jsstring
  | JStr jsstring
  | JArr "json list"
  | JObj "(jsstring \<times> json) list"

subsection \<open>Own properties\<close>

definition is_digit :: "code_unit \<Rightarrow> bool" where
  "is_digit c \<longleftrightarrow> 0x30 \<le> c \<and> c \<le> 0x39"

definition digits_value :: "jsstring \<Rightarrow> int" where
  "digits_value s = foldl (\<lambda>a c. 10 * a + (uint c - 48)) 0 s"

text \<open>An array index is the canonical decimal form of an integer below \<open>2^32 - 1\<close>.\<close>

definition is_index :: "jsstring \<Rightarrow> bool" where
  "is_index k \<longleftrightarrow>
     k \<noteq> [] \<and> list_all is_digit k \<and> (k = [0x30] \<or> hd k \<noteq> 0x30) \<and>
     digits_value k < 4294967295"

fun obj_update :: "jsstring \<Rightarrow> 'v \<Rightarrow> (jsstring \<times> 'v) list \<Rightarrow> (jsstring \<times> 'v) list" where
  "obj_update k v [] = []"
| "obj_update k v ((k', v') # ms) =
     (if k' = k then (k, v) # ms else (k', v') # obj_update k v ms)"

fun obj_insert :: "jsstring \<Rightarrow> 'v \<Rightarrow> (jsstring \<times> 'v) list \<Rightarrow> (jsstring \<times> 'v) list" where
  "obj_insert k v [] = [(k, v)]"
| "obj_insert k v ((k', v') # ms) =
     (if is_index k \<and> (\<not> is_index k' \<or> digits_value k < digits_value k')
      then (k, v) # (k', v') # ms
      else (k', v') # obj_insert k v ms)"

text \<open>
  \<open>CreateDataProperty\<close>, as \<open>JSON.parse\<close>, object spread and computed keys of object
  literals use it: the own property is created, or its value replaced in place.
\<close>

definition obj_define :: "jsstring \<Rightarrow> 'v \<Rightarrow> (jsstring \<times> 'v) list \<Rightarrow> (jsstring \<times> 'v) list" where
  "obj_define k v ms = (if k \<in> fst ` set ms then obj_update k v ms else obj_insert k v ms)"

text \<open>
  The assignment \<open>o[k] = v\<close> of a string \<open>v\<close> to a plain object. It differs from
  \<open>CreateDataProperty\<close> at one key: when \<open>__proto__\<close> is not an own property the
  assignment reaches the accessor of \<open>Object.prototype\<close>, which ignores a value that is
  neither an object nor \<open>null\<close>, and no property is created.
\<close>

definition obj_set :: "jsstring \<Rightarrow> 'v \<Rightarrow> (jsstring \<times> 'v) list \<Rightarrow> (jsstring \<times> 'v) list" where
  "obj_set k v ms =
     (if k = js ''__proto__'' \<and> k \<notin> fst ` set ms then ms else obj_define k v ms)"

subsection \<open>Parsing\<close>

datatype token =
    TLBrace | TRBrace | TLBrack | TRBrack | TColon | TComma
  | TStr jsstring | TNum jsstring | TTrue | TFalse | TNull

datatype num_state = NMinus | NZero | NInt | NDot | NFrac | NE | NESign | NExp

datatype lex_mode =
    LIdle
  | LStr jsstring
  | LEsc jsstring
  | LUni jsstring "nat list"
  | LNum num_state jsstring
  | LLit jsstring token

text \<open>The number grammar \<open>-? (0 | [1-9][0-9]*) (. [0-9]+)? ([eE] [+-]? [0-9]+)?\<close>.\<close>

fun num_step :: "num_state \<Rightarrow> code_unit \<Rightarrow> num_state option" where
  "num_step NMinus c = (if c = 0x30 then Some NZero else if is_digit c then Some NInt else None)"
| "num_step NZero c =
     (if c = 0x2E then Some NDot else if c = 0x65 \<or> c = 0x45 then Some NE else None)"
| "num_step NInt c =
     (if is_digit c then Some NInt else if c = 0x2E then Some NDot
      else if c = 0x65 \<or> c = 0x45 then Some NE else None)"
| "num_step NDot c = (if is_digit c then Some NFrac else None)"
| "num_step NFrac c =
     (if is_digit c then Some NFrac else if c = 0x65 \<or> c = 0x45 then Some NE else None)"
| "num_step NE c =
     (if c = 0x2B \<or> c = 0x2D then Some NESign else if is_digit c then Some NExp else None)"
| "num_step NESign c = (if is_digit c then Some NExp else None)"
| "num_step NExp c = (if is_digit c then Some NExp else None)"

fun num_final :: "num_state \<Rightarrow> bool" where
  "num_final NZero = True"
| "num_final NInt = True"
| "num_final NFrac = True"
| "num_final NExp = True"
| "num_final _ = False"

definition hex_value :: "code_unit \<Rightarrow> nat option" where
  "hex_value c =
     (if 0x30 \<le> c \<and> c \<le> 0x39 then Some (unat c - 0x30)
      else if 0x41 \<le> c \<and> c \<le> 0x46 then Some (unat c - 0x37)
      else if 0x61 \<le> c \<and> c \<le> 0x66 then Some (unat c - 0x57)
      else None)"

definition lex_idle :: "code_unit \<Rightarrow> (token list \<times> lex_mode) option" where
  "lex_idle c =
     (if c = 0x20 \<or> c = 0x09 \<or> c = 0x0A \<or> c = 0x0D then Some ([], LIdle)
      else if c = 0x7B then Some ([TLBrace], LIdle)
      else if c = 0x7D then Some ([TRBrace], LIdle)
      else if c = 0x5B then Some ([TLBrack], LIdle)
      else if c = 0x5D then Some ([TRBrack], LIdle)
      else if c = 0x3A then Some ([TColon], LIdle)
      else if c = 0x2C then Some ([TComma], LIdle)
      else if c = 0x22 then Some ([], LStr [])
      else if c = 0x2D then Some ([], LNum NMinus [c])
      else if c = 0x30 then Some ([], LNum NZero [c])
      else if is_digit c then Some ([], LNum NInt [c])
      else if c = 0x74 then Some ([], LLit (js ''rue'') TTrue)
      else if c = 0x66 then Some ([], LLit (js ''alse'') TFalse)
      else if c = 0x6E then Some ([], LLit (js ''ull'') TNull)
      else None)"

fun lex_step :: "lex_mode \<Rightarrow> code_unit \<Rightarrow> (token list \<times> lex_mode) option" where
  "lex_step LIdle c = lex_idle c"
| "lex_step (LStr acc) c =
     (if c = 0x22 then Some ([TStr acc], LIdle)
      else if c = 0x5C then Some ([], LEsc acc)
      else if c < 0x20 then None
      else Some ([], LStr (acc @ [c])))"
| "lex_step (LEsc acc) c =
     (if c = 0x22 \<or> c = 0x5C \<or> c = 0x2F then Some ([], LStr (acc @ [c]))
      else if c = 0x62 then Some ([], LStr (acc @ [0x08]))
      else if c = 0x66 then Some ([], LStr (acc @ [0x0C]))
      else if c = 0x6E then Some ([], LStr (acc @ [0x0A]))
      else if c = 0x72 then Some ([], LStr (acc @ [0x0D]))
      else if c = 0x74 then Some ([], LStr (acc @ [0x09]))
      else if c = 0x75 then Some ([], LUni acc [])
      else None)"
| "lex_step (LUni acc hs) c =
     (case hex_value c of
        None \<Rightarrow> None
      | Some h \<Rightarrow>
          if length hs = 3
          then Some ([], LStr (acc @ [of_nat (foldl (\<lambda>a d. 16 * a + d) 0 (hs @ [h]))]))
          else Some ([], LUni acc (hs @ [h])))"
| "lex_step (LNum ns l) c =
     (case num_step ns c of
        Some ns' \<Rightarrow> Some ([], LNum ns' (l @ [c]))
      | None \<Rightarrow>
          if num_final ns
          then (case lex_idle c of None \<Rightarrow> None | Some (ts, m) \<Rightarrow> Some (TNum l # ts, m))
          else None)"
| "lex_step (LLit [] t) c = None"
| "lex_step (LLit (x # xs) t) c =
     (if c = x then (if xs = [] then Some ([t], LIdle) else Some ([], LLit xs t)) else None)"

fun lex_end :: "lex_mode \<Rightarrow> token list option" where
  "lex_end LIdle = Some []"
| "lex_end (LNum ns l) = (if num_final ns then Some [TNum l] else None)"
| "lex_end _ = None"

fun lex :: "lex_mode \<Rightarrow> jsstring \<Rightarrow> token list option" where
  "lex m [] = lex_end m"
| "lex m (c # cs) =
     (case lex_step m c of
        None \<Rightarrow> None
      | Some (ts, m') \<Rightarrow> map_option ((@) ts) (lex m' cs))"

datatype frame = FArr "json list" | FObj "(jsstring \<times> json) list" "jsstring option"

datatype pmode = PValue | PValueOrClose | PKeyOrClose | PKey | PColon | PAfter | PDone json

fun complete :: "json \<Rightarrow> frame list \<Rightarrow> (frame list \<times> pmode) option" where
  "complete v [] = Some ([], PDone v)"
| "complete v (FArr es # st) = Some (FArr (es @ [v]) # st, PAfter)"
| "complete v (FObj ms (Some k) # st) = Some (FObj (obj_define k v ms) None # st, PAfter)"
| "complete v (FObj ms None # st) = None"

fun start_value :: "token \<Rightarrow> frame list \<Rightarrow> (frame list \<times> pmode) option" where
  "start_value TLBrack st = Some (FArr [] # st, PValueOrClose)"
| "start_value TLBrace st = Some (FObj [] None # st, PKeyOrClose)"
| "start_value (TStr s) st = complete (JStr s) st"
| "start_value (TNum l) st = complete (JNum l) st"
| "start_value TTrue st = complete (JBool True) st"
| "start_value TFalse st = complete (JBool False) st"
| "start_value TNull st = complete JNull st"
| "start_value _ st = None"

fun set_key :: "jsstring \<Rightarrow> frame list \<Rightarrow> (frame list \<times> pmode) option" where
  "set_key k (FObj ms None # st) = Some (FObj ms (Some k) # st, PColon)"
| "set_key k _ = None"

fun close_array :: "frame list \<Rightarrow> (frame list \<times> pmode) option" where
  "close_array (FArr es # st) = complete (JArr es) st"
| "close_array _ = None"

fun close_object :: "frame list \<Rightarrow> (frame list \<times> pmode) option" where
  "close_object (FObj ms None # st) = complete (JObj ms) st"
| "close_object _ = None"

fun parse_step :: "frame list \<times> pmode \<Rightarrow> token \<Rightarrow> (frame list \<times> pmode) option" where
  "parse_step (st, PValue) t = start_value t st"
| "parse_step (st, PValueOrClose) t = (if t = TRBrack then close_array st else start_value t st)"
| "parse_step (st, PKeyOrClose) t =
     (case t of TRBrace \<Rightarrow> close_object st | TStr k \<Rightarrow> set_key k st | _ \<Rightarrow> None)"
| "parse_step (st, PKey) t = (case t of TStr k \<Rightarrow> set_key k st | _ \<Rightarrow> None)"
| "parse_step (st, PColon) t = (if t = TColon then Some (st, PValue) else None)"
| "parse_step (st, PAfter) t =
     (case t of
        TComma \<Rightarrow>
          (case st of
             FArr es # _ \<Rightarrow> Some (st, PValue)
           | FObj ms None # _ \<Rightarrow> Some (st, PKey)
           | _ \<Rightarrow> None)
      | TRBrack \<Rightarrow> close_array st
      | TRBrace \<Rightarrow> close_object st
      | _ \<Rightarrow> None)"
| "parse_step (st, PDone v) t = None"

fun parse_tokens :: "frame list \<times> pmode \<Rightarrow> token list \<Rightarrow> (frame list \<times> pmode) option" where
  "parse_tokens s [] = Some s"
| "parse_tokens s (t # ts) =
     (case parse_step s t of None \<Rightarrow> None | Some s' \<Rightarrow> parse_tokens s' ts)"

text \<open>\<open>JSON.parse\<close> without reviver; \<open>None\<close> stands for the \<open>SyntaxError\<close>.\<close>

definition JSON_parse :: "jsstring \<Rightarrow> json option" where
  "JSON_parse s =
     (case lex LIdle s of
        None \<Rightarrow> None
      | Some ts \<Rightarrow>
          (case parse_tokens ([], PValue) ts of
             Some ([], PDone v) \<Rightarrow> Some v
           | _ \<Rightarrow> None))"

subsection \<open>Serialising\<close>

definition hex4_lower :: "code_unit \<Rightarrow> jsstring" where
  "hex4_lower c =
     [hex_lower (unat c div 4096), hex_lower ((unat c div 256) mod 16),
      hex_lower ((unat c div 16) mod 16), hex_lower (unat c mod 16)]"

definition quote_unit :: "code_unit \<Rightarrow> jsstring" where
  "quote_unit c =
     (if c = 0x22 then [0x5C, 0x22]
      else if c = 0x5C then [0x5C, 0x5C]
      else if c = 0x08 then [0x5C, 0x62]
      else if c = 0x0C then [0x5C, 0x66]
      else if c = 0x0A then [0x5C, 0x6E]
      else if c = 0x0D then [0x5C, 0x72]
      else if c = 0x09 then [0x5C, 0x74]
      else if c < 0x20 \<or> is_high_surrogate c \<or> is_low_surrogate c
      then [0x5C, 0x75] @ hex4_lower c
      else [c])"

fun quote_units :: "jsstring \<Rightarrow> jsstring" where
  "quote_units [] = []"
| "quote_units [c] = quote_unit c"
| "quote_units (c # d # ds) =
     (if is_high_surrogate c \<and> is_low_surrogate d then c # d # quote_units ds
      else quote_unit c @ quote_units (d # ds))"

definition quote :: "jsstring \<Rightarrow> jsstring" where
  "quote s = [0x22] @ quote_units s @ [0x22]"

text \<open>
  \<open>JSON.stringify\<close> without replacer or indentation. \<open>number_text\<close> is the runtime's
  rendering of a number: the text \<open>Number.prototype.toString\<close> gives for the double a
  literal denotes.
\<close>

fun JSON_stringify :: "(jsstring \<Rightarrow> jsstring) \<Rightarrow> json \<Rightarrow> jsstring" where
  "JSON_stringify number_text JNull = js ''null''"
| "JSON_stringify number_text (JBool b) = (if b then js ''true'' else js ''false'')"
| "JSON_stringify number_text (JNum l) = number_text l"
| "JSON_stringify number_text (JStr s) = quote s"
| "JSON_stringify number_text (JArr es) =
     js ''['' @ str_join (js '','') (map (JSON_stringify number_text) es) @ js '']''"
| "JSON_stringify number_text (JObj ms) =
     js ''{'' @
     str_join (js '','')
       (map (\<lambda>m. quote (fst m) @ js '':'' @ JSON_stringify number_text (snd m)) ms) @
     js ''}''"

subsection \<open>Assignment to a property of a parsed value\<close>

text \<open>
  The source is a class in an ES module, so it runs in strict mode: an assignment that
  cannot be carried out throws. \<open>array_length_of\<close> is the runtime's conversion of a
  string to an array length (\<open>ToNumber\<close>, floating point); \<open>None\<close> is \<open>RangeError\<close>.
  A hole of an array is serialised as \<open>null\<close> and is kept as \<open>JNull\<close>.
\<close>

definition arr_set :: "(jsstring \<Rightarrow> nat option) \<Rightarrow> jsstring \<Rightarrow> jsstring \<Rightarrow> json list \<Rightarrow> json list option" where
  "arr_set array_length_of k v es =
     (if is_index k then
        (let n = nat (digits_value k)
         in Some (if n < length es then es[n := JStr v]
                  else es @ replicate (n - length es) JNull @ [JStr v]))
      else if k = js ''length'' then
        (case array_length_of v of
           None \<Rightarrow> None
         | Some n \<Rightarrow> Some (take n es @ replicate (n - length es) JNull))
      else Some es)"

text \<open>\<open>target[k] = v\<close> for a string \<open>v\<close>; \<open>None\<close> is the \<open>TypeError\<close> or \<open>RangeError\<close>.\<close>

fun property_set :: "(jsstring \<Rightarrow> nat option) \<Rightarrow> jsstring \<Rightarrow> jsstring \<Rightarrow> json \<Rightarrow> json option" where
  "property_set array_length_of k v (JObj ms) = Some (JObj (obj_set k (JStr v) ms))"
| "property_set array_length_of k v (JArr es) = map_option JArr (arr_set array_length_of k v es)"
| "property_set array_length_of k v JNull = None"
| "property_set array_length_of k v prim = (if k = js ''__proto__'' then Some prim else None)"

fun assign_all :: "(jsstring \<Rightarrow> nat option) \<Rightarrow> (jsstring \<times> jsstring) list \<Rightarrow> json \<Rightarrow> json option" where
  "assign_all array_length_of [] target = Some target"
| "assign_all array_length_of ((k, v) # kvs) target =
     (case property_set array_length_of k v target of
        None \<Rightarrow> None
      | Some target' \<Rightarrow> assign_all array_length_of kvs target')"

subsection \<open>Locations inside a document\<close>

datatype step = Key jsstring | Idx nat

fun node_at :: "step list \<Rightarrow> json \<Rightarrow> json option" where
  "node_at [] v = Some v"
| "node_at (s # loc) v =
     (case (s, v) of
        (Key k, JObj ms) \<Rightarrow> (case map_of ms k of None \<Rightarrow> None | Some v' \<Rightarrow> node_at loc v')
      | (Idx i, JArr es) \<Rightarrow> (if i < length es then node_at loc (es ! i) else None)
      | _ \<Rightarrow> None)"

fun replace_at :: "step list \<Rightarrow> json \<Rightarrow> json \<Rightarrow> json" where
  "replace_at [] v new = new"
| "replace_at (s # loc) v new =
     (case (s, v) of
        (Key k, JObj ms) \<Rightarrow>
          (case map_of ms k of
             None \<Rightarrow> v
           | Some v' \<Rightarrow> JObj (obj_update k (replace_at loc v' new) ms))
      | (Idx i, JArr es) \<Rightarrow>
          (if i < length es then JArr (es[i := replace_at loc (es ! i) new]) else v)
      | _ \<Rightarrow> v)"

text \<open>
  What the \<open>jsonpath-plus\<close> library hands back for \<open>wrap: false\<close>: it throws, or finds
  nothing (\<open>undefined\<close>), or returns the one value it found, which for an object or an
  array is the node of the document itself, or builds a fresh array of several results.
\<close>

datatype jp_result = JPThrows | JPUndefined | JPNode "step list" | JPFresh "json list"

section \<open>The requester\<close>

subsection \<open>Data\<close>

record parameter =
  param_name :: jsstring
  param_value :: jsstring

datatype body_type = Json | Query | Multipart | Xml

datatype attack_type = AttackQuery | AttackHeaders | AttackBody

record config =
  attackType :: attack_type
  cacheBusterParameter :: bool
  addCacheBusterParameter :: bool
  updateContentLength_flag :: bool
  autopilotEnabled :: bool
  jsonBodyPath :: "jsstring option"

text \<open>
  Every failure of the source is \<open>throw new Error(message)\<close>; the constructors are the
  kinds the messages stand for:
  \<^item> \<open>UnsupportedFormat\<close>: "Unsupported body type detected." (\<open>determineBodyType\<close>);
  \<^item> \<open>UnsupportedBodyFormat\<close>: "Unsupported body type." (\<open>handleBodyParameters\<close>);
  \<^item> \<open>BodyEncodingError\<close>: "Failed to handle JSON body: ..." (\<open>handleJSONBody\<close>);
  \<^item> \<open>MissingContentType\<close>: "Missing Content-Type header";
  \<^item> \<open>MissingBoundary\<close>: "Missing multipart boundary";
  \<^item> \<open>MalformedMultipartBody\<close>: "Invalid multipart body: cannot find final boundary";
  \<^item> \<open>URIError\<close>: thrown by \<open>encodeURIComponent\<close>.
\<close>

datatype error =
    UnsupportedFormat
  | UnsupportedBodyFormat
  | BodyEncodingError
  | MissingContentType
  | MissingBoundary
  | MalformedMultipartBody
  | URIError

datatype 'a outcome = Returns 'a | Throws error

subsection \<open>The store\<close>

text \<open>
  Requests, their header objects and the arrays of header values are objects that the
  code shares and mutates, so they live in a store, at addresses. \<open>lim\<close> is the first
  address not yet allocated. The two fields of the \<open>Requester\<close> instance and the calls
  the code makes to its collaborators (in \<open>events\<close>, oldest first) are part of the same
  state.
\<close>

type_synonym addr = nat

record request_obj =
  req_id :: jsstring
  req_context :: "jsstring option"
  req_query :: jsstring
  req_body :: jsstring
  req_headers :: addr

record request_value =
  sent_ident :: jsstring
  sent_context :: "jsstring option"
  sent_query :: jsstring
  sent_body :: jsstring
  sent_headers :: "jsstring \<rightharpoonup> jsstring list"

datatype 'r event =
    EmitDebug nat
  | ApiLog "body_type option"
  | SendRequest request_value
  | AutopilotCheck 'r
  | ConsoleLog

record 'r store =
  bodyType :: "body_type option"
  multipartBoundary :: "jsstring option"
  requests :: "addr \<Rightarrow> request_obj"
  header_objs :: "addr \<Rightarrow> (jsstring \<rightharpoonup> addr)"
  arrays :: "addr \<Rightarrow> jsstring list"
  lim :: addr
  events :: "'r event list"

text \<open>
  What the code takes from outside: the runtime's number conversions, the JSONPath
  library, and for one call of the dispatcher the identifier \<open>generateID()\<close> returns, the
  two readings of \<open>Date.now()\<close>, the transport and the autopilot callback.
\<close>

record 'r env =
  number_text :: "jsstring \<Rightarrow> jsstring"
  array_length_of :: "jsstring \<Rightarrow> nat option"
  JSONPath :: "jsstring \<Rightarrow> json \<Rightarrow> jp_result"
  generateID :: jsstring
  date_now_1 :: nat
  date_now_2 :: nat
  sendRequest :: "request_value \<Rightarrow> 'r"
  autopilotCheckResponse :: "'r \<Rightarrow> bool"

definition emit :: "'r event \<Rightarrow> 'r store \<Rightarrow> 'r store" where
  "emit e st = st\<lparr>events := events st @ [e]\<rparr>"

definition set_query :: "addr \<Rightarrow> jsstring \<Rightarrow> 'r store \<Rightarrow> 'r store" where
  "set_query r q st = st\<lparr>requests := (requests st)(r := (requests st r)\<lparr>req_query := q\<rparr>)\<rparr>"

definition set_body :: "addr \<Rightarrow> jsstring \<Rightarrow> 'r store \<Rightarrow> 'r store" where
  "set_body r b st = st\<lparr>requests := (requests st)(r := (requests st r)\<lparr>req_body := b\<rparr>)\<rparr>"

text \<open>
  \<open>request.headers[k] = [v1, ...]\<close>: a new array is allocated and stored under the key of
  the request's header object. Under the key \<open>__proto__\<close>, when it is not an own
  property, the assignment replaces the prototype of the header object instead and no
  own property appears.
\<close>

definition set_header :: "addr \<Rightarrow> jsstring \<Rightarrow> jsstring list \<Rightarrow> 'r store \<Rightarrow> 'r store" where
  "set_header r k vs st =
     (let a = lim st; h = req_headers (requests st r); own = header_objs st h
      in st\<lparr>arrays := (arrays st)(a := vs),
            lim := Suc a,
            header_objs := (header_objs st)
              (h := (if k = js ''__proto__'' \<and> own k = None then own else own(k \<mapsto> a)))\<rparr>)"

text \<open>\<open>delete request.headers[k]\<close>.\<close>

definition delete_header :: "addr \<Rightarrow> jsstring \<Rightarrow> 'r store \<Rightarrow> 'r store" where
  "delete_header r k st =
     (let h = req_headers (requests st r)
      in st\<lparr>header_objs := (header_objs st)(h := (header_objs st h)(k := None))\<rparr>)"

definition header_values :: "addr \<Rightarrow> 'r store \<Rightarrow> (jsstring \<rightharpoonup> jsstring list)" where
  "header_values r st = (\<lambda>k. map_option (arrays st) (header_objs st (req_headers (requests st r)) k))"

text \<open>\<open>request.headers[k]?.[0]\<close>; \<open>None\<close> is \<open>undefined\<close>.\<close>

definition header_first :: "addr \<Rightarrow> jsstring \<Rightarrow> 'r store \<Rightarrow> jsstring option" where
  "header_first r k st = (case header_values r st k of Some (v # _) \<Rightarrow> Some v | _ \<Rightarrow> None)"

definition request_value_of :: "addr \<Rightarrow> 'r store \<Rightarrow> request_value" where
  "request_value_of r st =
     \<lparr>sent_ident = req_id (requests st r),
      sent_context = req_context (requests st r),
      sent_query = req_query (requests st r),
      sent_body = req_body (requests st r),
      sent_headers = header_values r st\<rparr>"

subsection \<open>Body sniffing\<close>

definition crlf :: jsstring where
  "crlf = [0x0D, 0x0A]"

definition dquote :: jsstring where
  "dquote = [0x22]"

definition isJSONBody :: "jsstring \<Rightarrow> bool" where
  "isJSONBody body = (JSON_parse body \<noteq> None)"

text \<open>The regular expression \<^verbatim>\<open>/^(?:[^=&]*=[^=&]*&?)*$/\<close>.\<close>

definition not_eq_amp :: "code_unit \<Rightarrow> bool" where
  "not_eq_amp c \<longleftrightarrow> c \<noteq> 0x3D \<and> c \<noteq> 0x26"

definition queryRegex :: rexp where
  "queryRegex =
     Star (Seq (Star (Unit not_eq_amp))
            (Seq (Unit (\<lambda>c. c = 0x3D))
              (Seq (Star (Unit not_eq_amp))
                (Alt (Unit (\<lambda>c. c = 0x26)) Empty))))"

definition isQueryBody :: "jsstring \<Rightarrow> bool" where
  "isQueryBody body = rexp_test queryRegex body"

text \<open>
  \<^verbatim>\<open>/^<[^?!]/\<close> is anchored at the start only: what follows the two code units is free.
\<close>

definition xmlRootRegex :: rexp where
  "xmlRootRegex =
     Seq (Unit (\<lambda>c. c = 0x3C))
       (Seq (Unit (\<lambda>c. c \<noteq> 0x3F \<and> c \<noteq> 0x21)) (Star (Unit (\<lambda>c. True))))"

definition isXMLBody :: "jsstring \<Rightarrow> bool" where
  "isXMLBody body =
     (let trimmedBody = str_trim body
      in (str_startsWith trimmedBody (js ''<?xml'') \<or> rexp_test xmlRootRegex trimmedBody) \<and>
         str_includes trimmedBody (js ''>''))"

subsection \<open>Format detection\<close>

definition determineBodyType :: "jsstring \<Rightarrow> jsstring option \<Rightarrow> 'r store \<Rightarrow> unit outcome \<times> 'r store" where
  "determineBodyType body contentType st =
     (let st1 =
        (case contentType of
           None \<Rightarrow> st
         | Some ct \<Rightarrow>
             if ct = [] then st
             else if str_includes ct (js ''application/json'') then st\<lparr>bodyType := Some Json\<rparr>
             else if str_includes ct (js ''application/x-www-form-urlencoded'')
             then st\<lparr>bodyType := Some Query\<rparr>
             else if str_includes ct (js ''multipart/form-data'')
             then st\<lparr>bodyType := Some Multipart\<rparr>
             else if str_includes ct (js ''application/xml'') \<or> str_includes ct (js ''text/xml'')
             then st\<lparr>bodyType := Some Xml\<rparr>
             else st);
        sniffed =
          (if bodyType st1 = None then
             (if isJSONBody body then Returns (st1\<lparr>bodyType := Some Json\<rparr>)
              else if isQueryBody body then Returns (st1\<lparr>bodyType := Some Query\<rparr>)
              else if isXMLBody body then Returns (st1\<lparr>bodyType := Some Xml\<rparr>)
              else Throws UnsupportedFormat)
           else Returns st1)
      in case sniffed of
           Throws e \<Rightarrow> (Throws e, st1)
         | Returns st2 \<Rightarrow> (Returns (), emit (ApiLog (bodyType st2)) st2))"

subsection \<open>Body encoders\<close>

definition encode_pair :: "parameter \<Rightarrow> jsstring option" where
  "encode_pair p =
     (case (encodeURIComponent (param_name p), encodeURIComponent (param_value p)) of
        (Some n, Some v) \<Rightarrow> Some (n @ js ''='' @ v)
      | _ \<Rightarrow> None)"

text \<open>
  \<open>handleJSONBody\<close>. Everything from the parse to the serialisation is inside one
  \<open>try\<close>, and the handler rethrows whatever was thrown as "Failed to handle JSON body".
  The two branches of \<open>if (jsonPath)\<close> are \<open>injectAtPath\<close> and \<open>injectAtRoot\<close>; each gives
  the document after the injection, or \<open>None\<close> when a statement of the branch throws.
\<close>

definition injectAtPath :: "'r env \<Rightarrow> jsstring \<Rightarrow> parameter list \<Rightarrow> json \<Rightarrow> json option" where
  "injectAtPath env path parameters bodyObj =
     (let jsonPath = (if str_startsWith path (js ''$'') then path else js ''$.'' @ path);
          paramsToInject =
            foldl (\<lambda>acc param. obj_define (param_name param) (param_value param) acc) [] parameters
      in case JSONPath env jsonPath bodyObj of
           JPThrows \<Rightarrow> None
         | JPUndefined \<Rightarrow> Some bodyObj
         | JPNode loc \<Rightarrow>
             (case node_at loc bodyObj of
                Some (JObj ms) \<Rightarrow>
                  map_option (replace_at loc bodyObj)
                    (assign_all (array_length_of env) paramsToInject (JObj ms))
              | Some (JArr es) \<Rightarrow>
                  map_option (replace_at loc bodyObj)
                    (assign_all (array_length_of env) paramsToInject (JArr es))
              | _ \<Rightarrow> Some bodyObj)
         | JPFresh es \<Rightarrow>
             (case assign_all (array_length_of env) paramsToInject (JArr es) of
                None \<Rightarrow> None
              | Some _ \<Rightarrow> Some bodyObj))"

definition injectAtRoot :: "'r env \<Rightarrow> parameter list \<Rightarrow> json \<Rightarrow> json option" where
  "injectAtRoot env parameters bodyObj =
     assign_all (array_length_of env) (map (\<lambda>p. (param_name p, param_value p)) parameters) bodyObj"

definition handleJSONBody :: "'r env \<Rightarrow> config \<Rightarrow> addr \<Rightarrow> parameter list \<Rightarrow> jsstring \<Rightarrow> 'r store \<Rightarrow> unit outcome \<times> 'r store" where
  "handleJSONBody env cfg request parameters originalBody st =
     (case (if originalBody \<noteq> [] then JSON_parse originalBody else Some (JObj [])) of
        None \<Rightarrow> (Throws BodyEncodingError, st)
      | Some bodyObj \<Rightarrow>
          (case (case jsonBodyPath cfg of
                   Some (c # cs) \<Rightarrow> injectAtPath env (c # cs) parameters bodyObj
                 | _ \<Rightarrow> injectAtRoot env parameters bodyObj) of
             None \<Rightarrow> (Throws BodyEncodingError, st)
           | Some bodyObj' \<Rightarrow>
               (Returns (),
                set_header request (js ''content-type'') [js ''application/json'']
                  (set_body request (JSON_stringify (number_text env) bodyObj') st))))"

definition handleQueryBody :: "addr \<Rightarrow> parameter list \<Rightarrow> jsstring \<Rightarrow> 'r store \<Rightarrow> unit outcome \<times> 'r store" where
  "handleQueryBody request parameters originalBody st =
     (let existingParams = (if originalBody \<noteq> [] then originalBody @ js ''&'' else [])
      in case those (map encode_pair parameters) of
           None \<Rightarrow> (Throws URIError, st)
         | Some pairs \<Rightarrow>
             (let newParams = str_join (js ''&'') pairs
              in (Returns (),
                  set_header request (js ''content-type'') [js ''application/x-www-form-urlencoded'']
                    (set_body request (existingParams @ newParams) st))))"

text \<open>
  \<^verbatim>\<open>/boundary=(.+)/\<close>: the leftmost place where \<open>boundary=\<close> is followed by at least one
  code unit that is no line terminator; the group takes all of them up to the next line
  terminator or the end.
\<close>

definition is_line_terminator :: "code_unit \<Rightarrow> bool" where
  "is_line_terminator c \<longleftrightarrow> c = 0x0A \<or> c = 0x0D \<or> c = 0x2028 \<or> c = 0x2029"

fun boundaryMatch :: "jsstring \<Rightarrow> jsstring option" where
  "boundaryMatch [] = None"
| "boundaryMatch (c # cs) =
     (let group = takeWhile (\<lambda>x. \<not> is_line_terminator x) (drop 9 (c # cs))
      in if str_startsWith (c # cs) (js ''boundary='') \<and> group \<noteq> [] then Some group
         else boundaryMatch cs)"

definition multipart_part :: "jsstring \<Rightarrow> parameter \<Rightarrow> jsstring" where
  "multipart_part boundary p =
     js ''--'' @ boundary @ crlf @ js ''Content-Disposition: form-data; name='' @ dquote @
     param_name p @ dquote @ crlf @ crlf @ param_value p @ crlf"

definition handleMultipartBody :: "addr \<Rightarrow> parameter list \<Rightarrow> jsstring \<Rightarrow> 'r store \<Rightarrow> unit outcome \<times> 'r store" where
  "handleMultipartBody request parameters originalBody st =
     (case header_first request (js ''Content-Type'') st of
        None \<Rightarrow> (Throws MissingContentType, st)
      | Some [] \<Rightarrow> (Throws MissingContentType, st)
      | Some originalContentType \<Rightarrow>
          (case boundaryMatch originalContentType of
             None \<Rightarrow> (Throws MissingBoundary, st)
           | Some boundary \<Rightarrow>
               (let finalBoundary = js ''--'' @ boundary @ js ''--''
                in case str_indexOf originalBody finalBoundary of
                     None \<Rightarrow> (Throws MalformedMultipartBody, st)
                   | Some finalIndex \<Rightarrow>
                       (let sliced = take finalIndex originalBody;
                            bodyUpToFinalBoundary =
                              (if \<not> str_endsWith sliced crlf then sliced @ crlf else sliced);
                            withParts =
                              foldl (\<lambda>acc p. acc @ multipart_part boundary p)
                                bodyUpToFinalBoundary parameters
                        in (Returns (),
                            (set_header request (js ''Content-Type'') [originalContentType]
                               (set_body request (withParts @ finalBoundary) st))
                            \<lparr>multipartBoundary := Some boundary\<rparr>)))))"

subsection \<open>Injection strategies\<close>

definition handleQueryParameters :: "addr \<Rightarrow> parameter list \<Rightarrow> 'r store \<Rightarrow> unit outcome \<times> 'r store" where
  "handleQueryParameters request parameters st =
     (case those (map encode_pair parameters) of
        None \<Rightarrow> (Throws URIError, st)
      | Some pairs \<Rightarrow>
          (let queryParams = str_join (js ''&'') pairs;
               old = req_query (requests st request)
           in (Returns (),
               set_query request (if old \<noteq> [] then old @ js ''&'' @ queryParams else queryParams) st)))"

definition handleCacheBusterParameter :: "'r env \<Rightarrow> addr \<Rightarrow> 'r store \<Rightarrow> 'r store" where
  "handleCacheBusterParameter env request st =
     (let cacheBusterParam = js ''cb'' @ decimal (date_now_1 env) @ js ''='' @ decimal (date_now_2 env);
          old = req_query (requests st request)
      in set_query request (if old \<noteq> [] then old @ js ''&'' @ cacheBusterParam else cacheBusterParam) st)"

definition handleHeaderParameters :: "addr \<Rightarrow> parameter list \<Rightarrow> 'r store \<Rightarrow> 'r store" where
  "handleHeaderParameters request parameters st =
     foldl (\<lambda>s p. set_header request (param_name p) [param_value p] s) st parameters"

definition handleBodyParameters :: "'r env \<Rightarrow> config \<Rightarrow> addr \<Rightarrow> parameter list \<Rightarrow> 'r store \<Rightarrow> unit outcome \<times> 'r store" where
  "handleBodyParameters env cfg request parameters st =
     (let originalBody = req_body (requests st request);
          contentType = map_option str_toLowerCase (header_first request (js ''Content-Type'') st);
          detected =
            (if bodyType st = None then determineBodyType originalBody contentType st
             else (Returns (), st))
      in case detected of
           (Throws e, st1) \<Rightarrow> (Throws e, st1)
         | (Returns _, st1) \<Rightarrow>
             (case bodyType st1 of
                Some Json \<Rightarrow> handleJSONBody env cfg request parameters originalBody st1
              | Some Query \<Rightarrow> handleQueryBody request parameters originalBody st1
              | Some Multipart \<Rightarrow> handleMultipartBody request parameters originalBody st1
              | _ \<Rightarrow> (Throws UnsupportedBodyFormat, st1)))"

subsection \<open>Auxiliary mutators and the dispatcher\<close>

definition updateContentLength :: "addr \<Rightarrow> 'r store \<Rightarrow> 'r store" where
  "updateContentLength request st =
     (let contentLength = length (req_body (requests st request))
      in if contentLength = 0 then delete_header request (js ''Content-Length'') st
         else set_header request (js ''Content-Length'') [decimal contentLength] st)"

text \<open>
  \<^verbatim>\<open>{ ...request, id: generateID(), context: context ?? "discovery", headers: { ...request.headers } }\<close>:
  a new header object with the same entries (the arrays themselves are shared) and a
  new request object.
\<close>

definition clone_request :: "'r env \<Rightarrow> addr \<Rightarrow> jsstring option \<Rightarrow> 'r store \<Rightarrow> addr \<times> 'r store" where
  "clone_request env request context st =
     (let h = lim st; requestCopy = Suc (lim st)
      in (requestCopy,
          st\<lparr>header_objs := (header_objs st)(h := header_objs st (req_headers (requests st request))),
             requests := (requests st)
               (requestCopy := (requests st request)
                  \<lparr>req_id := generateID env,
                   req_context := Some (case context of None \<Rightarrow> js ''discovery'' | Some c \<Rightarrow> c),
                   req_headers := h\<rparr>),
             lim := Suc (Suc (lim st))\<rparr>))"

text \<open>The \<open>switch (attackType)\<close> statement of \<open>sendRequestWithParams\<close>.\<close>

definition injectionStrategy :: "'r env \<Rightarrow> config \<Rightarrow> addr \<Rightarrow> parameter list \<Rightarrow> 'r store \<Rightarrow> unit outcome \<times> 'r store" where
  "injectionStrategy env cfg requestCopy parameters st =
     (let cacheBuster = (cacheBusterParameter cfg \<or> addCacheBusterParameter cfg)
      in case attackType cfg of
           AttackQuery \<Rightarrow>
             (case handleQueryParameters requestCopy parameters st of
                (Throws e, s) \<Rightarrow> (Throws e, s)
              | (Returns _, s) \<Rightarrow>
                  (Returns (),
                   if cacheBuster then handleCacheBusterParameter env requestCopy s else s))
         | AttackHeaders \<Rightarrow>
             (let s = handleHeaderParameters requestCopy parameters st
              in (Returns (),
                  if cacheBuster then handleCacheBusterParameter env requestCopy s else s))
         | AttackBody \<Rightarrow> handleBodyParameters env cfg requestCopy parameters st)"

definition sendRequestWithParams :: "'r env \<Rightarrow> config \<Rightarrow> addr \<Rightarrow> parameter list \<Rightarrow> jsstring option \<Rightarrow> 'r store \<Rightarrow> 'r outcome \<times> 'r store" where
  "sendRequestWithParams env cfg request parameters context st =
     (let (requestCopy, st1) = clone_request env request context st;
          st2 = emit (EmitDebug (length parameters)) st1
      in case injectionStrategy env cfg requestCopy parameters st2 of
           (Throws e, st3) \<Rightarrow> (Throws e, st3)
         | (Returns _, st3) \<Rightarrow>
             (let st4 = (if updateContentLength_flag cfg then updateContentLength requestCopy st3
                         else st3);
                  requestResponse = sendRequest env (request_value_of requestCopy st4);
                  st5 = emit (SendRequest (request_value_of requestCopy st4)) st4;
                  st6 =
                    (if autopilotEnabled cfg \<and> context = Some (js ''discovery'') then
                       (let hasTakenAction = autopilotCheckResponse env requestResponse;
                            s = emit (AutopilotCheck requestResponse) st5
                        in if hasTakenAction then emit ConsoleLog s else s)
                     else st5)
              in (Returns requestResponse, st6)))"

subsection \<open>A concrete requester\<close>

text \<open>
  A small instance on which the definitions can be run: the transport answers with the
  body it was sent, the autopilot always reports an action, the JSONPath library finds
  nothing. The store holds one request at address \<open>2\<close>, with its header object at \<open>0\<close>
  and, when a content type is given, the array of its values at \<open>1\<close>.
\<close>

definition example_env :: "jsstring env" where
  "example_env =
     \<lparr>number_text = (\<lambda>l. l), array_length_of = (\<lambda>_. None), JSONPath = (\<lambda>_ _. JPUndefined),
      generateID = js ''id-2'', date_now_1 = 1700000000000, date_now_2 = 1700000000001,
      sendRequest = sent_body, autopilotCheckResponse = (\<lambda>_. True)\<rparr>"

definition example_config :: "attack_type \<Rightarrow> config" where
  "example_config surface =
     \<lparr>attackType = surface, cacheBusterParameter = False, addCacheBusterParameter = False,
      updateContentLength_flag = True, autopilotEnabled = True, jsonBodyPath = None\<rparr>"

definition example_store :: "jsstring option \<Rightarrow> jsstring \<Rightarrow> jsstring store" where
  "example_store contentType b =
     \<lparr>bodyType = None, multipartBoundary = None,
      requests = (\<lambda>_. \<lparr>req_id = js ''id-1'', req_context = None, req_query = js ''q=1'',
                         req_body = b, req_headers = 0\<rparr>),
      header_objs = (\<lambda>_. Map.empty)
        (0 := (case contentType of None \<Rightarrow> Map.empty | Some ct \<Rightarrow> [js ''Content-Type'' \<mapsto> 1])),
      arrays = (\<lambda>_. [])(1 := (case contentType of None \<Rightarrow> [] | Some ct \<Rightarrow> [ct])),
      lim = 3, events = []\<rparr>"

definition example_parameter :: "string \<Rightarrow> string \<Rightarrow> parameter" where
  "example_parameter n v = \<lparr>param_name = js n, param_value = js v\<rparr>"

section \<open>Notions of the specification\<close>

subsection \<open>Repeated body injection on one instance\<close>

text \<open>
  A session: body-surface calls made one after the other on the same instance, each
  with its own configuration, request and batch. A call that throws ends itself, not
  the session. \<open>determinations\<close> counts the "Determined body format" lines logged.
\<close>

fun bodyInjections :: "('r env \<times> config \<times> addr \<times> parameter list) list \<Rightarrow> 'r store \<Rightarrow> 'r store" where
  "bodyInjections [] st = st"
| "bodyInjections ((env, cfg, request, parameters) # calls) st =
     bodyInjections calls (snd (handleBodyParameters env cfg request parameters st))"

fun is_ApiLog :: "'r event \<Rightarrow> bool" where
  "is_ApiLog (ApiLog t) = True"
| "is_ApiLog _ = False"

definition determinations :: "'r store \<Rightarrow> nat" where
  "determinations st = length (filter is_ApiLog (events st))"

subsection \<open>The format detector in the words of the specification\<close>

text \<open>
  \<open>declares contentType needle\<close>: a content type is declared and contains the needle,
  letters compared without regard to case. \<open>xml_like\<close>: the XML-like shape.
  \<open>format_by_spec\<close>: the detector's priority order.
\<close>

definition declares :: "jsstring option \<Rightarrow> jsstring \<Rightarrow> bool" where
  "declares contentType needle \<longleftrightarrow>
     (\<exists>ct pre mid post. contentType = Some ct \<and> ct = pre @ mid @ post \<and>
        map lower_unit mid = map lower_unit needle)"

definition xml_like :: "jsstring \<Rightarrow> bool" where
  "xml_like b \<longleftrightarrow>
     (prefix (js ''<?xml'') (str_trim b) \<or>
      (\<exists>c rest. str_trim b = 0x3C # c # rest \<and> c \<noteq> 0x3F \<and> c \<noteq> 0x21)) \<and>
     0x3E \<in> set (str_trim b)"

definition format_by_spec :: "jsstring option \<Rightarrow> jsstring \<Rightarrow> body_type option" where
  "format_by_spec contentType b =
     (if declares contentType (js ''application/json'') then Some Json
      else if declares contentType (js ''application/x-www-form-urlencoded'') then Some Query
      else if declares contentType (js ''multipart/form-data'') then Some Multipart
      else if declares contentType (js ''application/xml'') \<or> declares contentType (js ''text/xml'')
      then Some Xml
      else if JSON_parse b \<noteq> None then Some Json
      else if b \<in> lang queryRegex then Some Query
      else if xml_like b then Some Xml
      else None)"

subsection \<open>Objects that a call leaves alone\<close>

text \<open>
  \<open>unchanged_below n st st'\<close>: every request object, header object and array at an
  address below \<open>n\<close> is in \<open>st'\<close> what it was in \<open>st\<close>.
\<close>

definition unchanged_below :: "addr \<Rightarrow> 'r store \<Rightarrow> 'r store \<Rightarrow> bool" where
  "unchanged_below n st st' \<longleftrightarrow>
     (\<forall>a<n. requests st' a = requests st a \<and> header_objs st' a = header_objs st a \<and>
            arrays st' a = arrays st a)"

text \<open>
  \<open>private_above n rc st\<close>: the request object at \<open>rc\<close> and its header object were
  allocated at or after \<open>n\<close>, as is everything that will be allocated from now on.
\<close>

definition private_above :: "addr \<Rightarrow> addr \<Rightarrow> 'r store \<Rightarrow> bool" where
  "private_above n rc st \<longleftrightarrow> n \<le> rc \<and> n \<le> req_headers (requests st rc) \<and> n \<le> lim st"

definition keeps :: "addr \<Rightarrow> addr \<Rightarrow> 'r store \<Rightarrow> 'r store \<Rightarrow> bool" where
  "keeps n rc st st' \<longleftrightarrow> unchanged_below n st st' \<and> private_above n rc st'"

subsection \<open>Calls of the decision callback\<close>

fun is_AutopilotCheck :: "'r event \<Rightarrow> bool" where
  "is_AutopilotCheck (AutopilotCheck r) = True"
| "is_AutopilotCheck _ = False"

subsection \<open>The last value a batch gives to a name\<close>

definition last_value :: "parameter list \<Rightarrow> jsstring \<Rightarrow> jsstring option" where
  "last_value parameters k = map_of (rev (map (\<lambda>p. (param_name p, param_value p)) parameters)) k"

subsection \<open>The boundary directive of a content type\<close>

text \<open>
  \<open>line_ends\<close>: the code units that end a line. \<open>directive_at ct j\<close>: at position \<open>j\<close>
  of the content type the text \<open>boundary=\<close> begins, and the code unit behind it exists
  and does not end a line, so that the directive has a value.
\<close>

definition line_ends :: "code_unit set" where
  "line_ends = {0x0A, 0x0D, 0x2028, 0x2029}"

definition directive_at :: "jsstring \<Rightarrow> nat \<Rightarrow> bool" where
  "directive_at ct j \<longleftrightarrow>
     take 9 (drop j ct) = js ''boundary='' \<and> j + 9 < length ct \<and> ct ! (j + 9) \<notin> line_ends"

section \<open>Properties of the builtins and of the store\<close>

lemma str_startsWith_prefix: "str_startsWith s p \<longleftrightarrow> prefix p s"
  by (induction s p rule: str_startsWith.induct) auto

lemma str_endsWith_suffix: "str_endsWith s p \<longleftrightarrow> suffix p s"
  by (simp add: str_endsWith_def str_startsWith_prefix suffix_to_prefix)

lemma str_includes_sublist: "str_includes s n \<longleftrightarrow> sublist n s"
  by (induction s) (auto simp: str_startsWith_prefix sublist_Cons_right)

lemma str_indexOf_None: "str_indexOf s n = None \<longleftrightarrow> \<not> sublist n s"
  by (induction s) (auto simp: str_startsWith_prefix sublist_Cons_right)

lemma str_indexOf_Some:
  "str_indexOf s n = Some i \<Longrightarrow> prefix n (drop i s) \<and> i \<le> length s \<and> (\<forall>j<i. \<not> prefix n (drop j s))"
proof (induction s arbitrary: i)
  case Nil
  then show ?case by (auto split: if_splits)
next
  case (Cons c cs)
  show ?case
  proof (cases "str_startsWith (c # cs) n")
    case True
    with Cons.prems show ?thesis by (auto simp: str_startsWith_prefix)
  next
    case False
    with Cons.prems obtain i' where i': "str_indexOf cs n = Some i'" "i = Suc i'"
      by auto
    from Cons.IH[OF i'(1)] have ih: "prefix n (drop i' cs)" "i' \<le> length cs" "\<forall>j<i'. \<not> prefix n (drop j cs)"
      by auto
    have "\<not> prefix n (drop j (c # cs))" if "j < i" for j
    proof (cases j)
      case 0
      with False show ?thesis by (simp add: str_startsWith_prefix)
    next
      case (Suc j')
      with that i'(2) ih(3) show ?thesis by simp
    qed
    with ih i'(2) show ?thesis by simp
  qed
qed

lemma foldl_append_concat: "foldl (\<lambda>acc p. acc @ f p) a ps = a @ concat (map f ps)"
  by (induction ps arbitrary: a) auto

lemma set_header_fields [simp]:
  "requests (set_header r k vs st) = requests st"
  "bodyType (set_header r k vs st) = bodyType st"
  "multipartBoundary (set_header r k vs st) = multipartBoundary st"
  "events (set_header r k vs st) = events st"
  "lim (set_header r k vs st) = Suc (lim st)"
  "arrays (set_header r k vs st) = (arrays st)(lim st := vs)"
  by (simp_all add: set_header_def Let_def)

lemma set_header_objs:
  "header_objs (set_header r k vs st) =
     (header_objs st)(req_headers (requests st r) :=
        (if k = js ''__proto__'' \<and> header_objs st (req_headers (requests st r)) k = None
         then header_objs st (req_headers (requests st r))
         else (header_objs st (req_headers (requests st r)))(k \<mapsto> lim st)))"
  by (simp add: set_header_def Let_def)

lemma set_body_fields [simp]:
  "requests (set_body r b st) = (requests st)(r := (requests st r)\<lparr>req_body := b\<rparr>)"
  "bodyType (set_body r b st) = bodyType st"
  "multipartBoundary (set_body r b st) = multipartBoundary st"
  "events (set_body r b st) = events st"
  "lim (set_body r b st) = lim st"
  "arrays (set_body r b st) = arrays st"
  "header_objs (set_body r b st) = header_objs st"
  by (simp_all add: set_body_def)

lemma set_query_fields [simp]:
  "requests (set_query r q st) = (requests st)(r := (requests st r)\<lparr>req_query := q\<rparr>)"
  "bodyType (set_query r q st) = bodyType st"
  "multipartBoundary (set_query r q st) = multipartBoundary st"
  "events (set_query r q st) = events st"
  "lim (set_query r q st) = lim st"
  "arrays (set_query r q st) = arrays st"
  "header_objs (set_query r q st) = header_objs st"
  by (simp_all add: set_query_def)

lemma delete_header_fields [simp]:
  "requests (delete_header r k st) = requests st"
  "bodyType (delete_header r k st) = bodyType st"
  "multipartBoundary (delete_header r k st) = multipartBoundary st"
  "events (delete_header r k st) = events st"
  "lim (delete_header r k st) = lim st"
  "arrays (delete_header r k st) = arrays st"
  "header_objs (delete_header r k st) =
     (header_objs st)(req_headers (requests st r) := (header_objs st (req_headers (requests st r)))(k := None))"
  by (simp_all add: delete_header_def Let_def)

lemma emit_fields [simp]:
  "requests (emit e st) = requests st"
  "bodyType (emit e st) = bodyType st"
  "multipartBoundary (emit e st) = multipartBoundary st"
  "events (emit e st) = events st @ [e]"
  "lim (emit e st) = lim st"
  "arrays (emit e st) = arrays st"
  "header_objs (emit e st) = header_objs st"
  by (simp_all add: emit_def)

lemma header_values_set_header_same:
  "k \<noteq> js ''__proto__'' \<Longrightarrow> header_values r (set_header r k vs st) k = Some vs"
  by (simp add: header_values_def set_header_objs)

lemma header_values_set_body [simp]:
  "header_values r (set_body r' b st) = header_values r st"
  by (auto simp: header_values_def)

lemma header_values_delete_header_same:
  "header_values r (delete_header r k st) k = None"
  by (simp add: header_values_def)

lemma proto_neq [simp]:
  "js ''Content-Length'' \<noteq> js ''__proto__''"
  "js ''Content-Type'' \<noteq> js ''__proto__''"
  "js ''content-type'' \<noteq> js ''__proto__''"
  "js ''Content-Type'' \<noteq> js ''content-type''"
  "js ''content-type'' \<noteq> js ''Content-Type''"
  by (simp_all add: js_def)

lemma updateContentLength_header:
  "header_values request (updateContentLength request st) (js ''Content-Length'') =
     (if req_body (requests st request) = [] then None
      else Some [decimal (length (req_body (requests st request)))])"
  by (simp add: updateContentLength_def Let_def header_values_set_header_same
      header_values_delete_header_same)

lemma boundaryMatch_None: "\<not> sublist (js ''boundary='') ct \<Longrightarrow> boundaryMatch ct = None"
  by (induction ct) (auto simp: str_startsWith_prefix sublist_Cons_right Let_def)

lemma boundaryMatch_Some:
  "boundaryMatch ct = Some b \<Longrightarrow>
     b \<noteq> [] \<and> (\<forall>c \<in> set b. \<not> is_line_terminator c) \<and>
     (\<exists>pre post. ct = pre @ js ''boundary='' @ b @ post)"
proof (induction ct)
  case Nil
  then show ?case by simp
next
  case (Cons c cs)
  let ?g = "takeWhile (\<lambda>x. \<not> is_line_terminator x) (drop 9 (c # cs))"
  show ?case
  proof (cases "str_startsWith (c # cs) (js ''boundary='') \<and> ?g \<noteq> []")
    case True
    with Cons.prems have b: "b = ?g" by (simp add: Let_def)
    from True obtain rest where rest: "c # cs = js ''boundary='' @ rest"
      by (auto simp: str_startsWith_prefix prefix_def)
    have "length (js ''boundary='') = 9" by (simp add: js_def)
    with rest have "drop 9 (c # cs) = rest" by (metis append_eq_conv_conj)
    then have "rest = b @ dropWhile (\<lambda>x. \<not> is_line_terminator x) rest"
      using b by simp
    with rest have "c # cs = [] @ js ''boundary='' @ b @ dropWhile (\<lambda>x. \<not> is_line_terminator x) rest"
      by simp
    then have ex: "\<exists>pre post. c # cs = pre @ js ''boundary='' @ b @ post"
      by blast
    have nlt: "\<forall>c \<in> set b. \<not> is_line_terminator c"
      unfolding b by (auto dest: set_takeWhileD)
    from True b have "b \<noteq> []" by simp
    with ex nlt show ?thesis by simp
  next
    case False
    with Cons.prems have "boundaryMatch cs = Some b" by (auto simp: Let_def split: if_splits)
    from Cons.IH[OF this] obtain pre post where
      "b \<noteq> []" "\<forall>c \<in> set b. \<not> is_line_terminator c" "cs = pre @ js ''boundary='' @ b @ post"
      by blast
    then have "c # cs = (c # pre) @ js ''boundary='' @ b @ post" by simp
    with \<open>b \<noteq> []\<close> \<open>\<forall>c \<in> set b. \<not> is_line_terminator c\<close> show ?thesis by blast
  qed
qed

lemma example_store_fields [simp]:
  "bodyType (example_store ct b) = None"
  "multipartBoundary (example_store ct b) = None"
  "requests (example_store ct b) r = \<lparr>req_id = js ''id-1'', req_context = None, req_query = js ''q=1'', req_body = b, req_headers = 0\<rparr>"
  "lim (example_store ct b) = 3"
  "events (example_store ct b) = []"
  "header_objs (example_store (Some c) b) 0 = [js ''Content-Type'' \<mapsto> 1]"
  "header_objs (example_store None b) 0 = Map.empty"
  "arrays (example_store (Some c) b) (Suc 0) = [c]"
  by (simp_all add: example_store_def)

lemma header_first_example [simp]:
  "header_first r (js ''Content-Type'') (example_store (Some c) b) = Some c"
  "header_first r k (example_store None b) = None"
  by (simp_all add: header_first_def header_values_def)

lemma header_first_absent:
  "header_objs st (req_headers (requests st r)) k = None \<Longrightarrow> header_first r k st = None"
  by (simp add: header_first_def header_values_def)

lemma header_values_set_header_other:
  "k' \<noteq> k \<Longrightarrow> header_objs st (req_headers (requests st r)) k' = Some a \<Longrightarrow> a < lim st \<Longrightarrow>
   header_values r (set_header r k vs st) k' = Some (arrays st a)"
  by (auto simp: header_values_def set_header_objs)

section \<open>Regular expressions and the detector's tests\<close>

lemma nullable_lang: "nullable r \<longleftrightarrow> [] \<in> lang r"
proof (induction r)
  case (Star r)
  show ?case by (simp add: star_nil)
qed auto

lemma star_lang_Cons_D:
  "w \<in> star_lang A \<Longrightarrow> w = c # s \<Longrightarrow> \<exists>u v. s = u @ v \<and> c # u \<in> A \<and> v \<in> star_lang A"
proof (induction arbitrary: c s rule: star_lang.induct)
  case star_nil
  then show ?case by simp
next
  case (star_app u v)
  show ?case
  proof (cases u)
    case Nil
    with star_app show ?thesis by simp
  next
    case (Cons a u')
    with star_app.prems have "s = u' @ v" "a = c" by simp_all
    with Cons star_app.hyps show ?thesis by blast
  qed
qed

lemma star_lang_Cons:
  "c # s \<in> star_lang A \<longleftrightarrow> (\<exists>u v. s = u @ v \<and> c # u \<in> A \<and> v \<in> star_lang A)"
proof
  assume "c # s \<in> star_lang A"
  then show "\<exists>u v. s = u @ v \<and> c # u \<in> A \<and> v \<in> star_lang A"
    by (rule star_lang_Cons_D) simp
next
  assume "\<exists>u v. s = u @ v \<and> c # u \<in> A \<and> v \<in> star_lang A"
  then obtain u v where "s = u @ v" "c # u \<in> A" "v \<in> star_lang A" by blast
  then have "(c # u) @ v \<in> star_lang A" by (blast intro: star_app)
  with \<open>s = u @ v\<close> show "c # s \<in> star_lang A" by simp
qed

lemma deriv_lang: "s \<in> lang (deriv c r) \<longleftrightarrow> c # s \<in> lang r"
proof (induction r arbitrary: s)
  case (Seq r1 r2)
  have "c # s \<in> lang (Seq r1 r2) \<longleftrightarrow>
        (\<exists>u v. s = u @ v \<and> c # u \<in> lang r1 \<and> v \<in> lang r2) \<or> ([] \<in> lang r1 \<and> c # s \<in> lang r2)"
    by (auto simp: Cons_eq_append_conv)
  with Seq show ?case by (auto simp: nullable_lang)
next
  case (Star r)
  then show ?case by (auto simp: star_lang_Cons)
qed auto

lemma rexp_test_lang: "rexp_test r s \<longleftrightarrow> s \<in> lang r"
  by (induction s arbitrary: r) (simp_all add: nullable_lang deriv_lang)

lemma star_lang_any: "s \<in> star_lang {[c] | c. True}"
proof (induction s)
  case Nil
  show ?case by (rule star_nil)
next
  case (Cons a s)
  have "[a] @ s \<in> star_lang {[c] | c. True}"
    by (rule star_app) (use Cons in auto)
  then show ?case by simp
qed

lemma xmlRootRegex_lang:
  "s \<in> lang xmlRootRegex \<longleftrightarrow> (\<exists>c rest. s = 0x3C # c # rest \<and> c \<noteq> 0x3F \<and> c \<noteq> 0x21)"
proof
  assume "s \<in> lang xmlRootRegex"
  then show "\<exists>c rest. s = 0x3C # c # rest \<and> c \<noteq> 0x3F \<and> c \<noteq> 0x21"
    by (auto simp: xmlRootRegex_def)
next
  assume "\<exists>c rest. s = 0x3C # c # rest \<and> c \<noteq> 0x3F \<and> c \<noteq> 0x21"
  then obtain c rest where s: "s = [0x3C] @ ([c] @ rest)" and c: "c \<noteq> 0x3F" "c \<noteq> 0x21" by auto
  have "[c] @ rest \<in> lang (Seq (Unit (\<lambda>c. c \<noteq> 0x3F \<and> c \<noteq> 0x21)) (Star (Unit (\<lambda>c. True))))"
    using c star_lang_any[of rest] by (simp del: append.simps) blast
  then show "s \<in> lang xmlRootRegex"
    unfolding s xmlRootRegex_def by (simp del: append.simps)
qed

lemma str_includes_unit: "str_includes s [x] \<longleftrightarrow> x \<in> set s"
  by (induction s) auto

lemma isXMLBody_xml_like: "isXMLBody b \<longleftrightarrow> xml_like b"
proof -
  have "js ''>'' = [0x3E]" by (simp add: js_def)
  then show ?thesis
    by (simp add: isXMLBody_def xml_like_def Let_def str_startsWith_prefix rexp_test_lang
        xmlRootRegex_lang str_includes_unit)
qed

lemma declares_includes:
  assumes "map lower_unit needle = needle"
  shows "declares (Some ct) needle \<longleftrightarrow> str_includes (str_toLowerCase ct) needle"
proof
  assume "declares (Some ct) needle"
  then obtain pre mid post where "ct = pre @ mid @ post" "map lower_unit mid = map lower_unit needle"
    by (auto simp: declares_def)
  with assms have "map lower_unit ct = map lower_unit pre @ needle @ map lower_unit post" by simp
  then show "str_includes (str_toLowerCase ct) needle"
    by (auto simp: str_includes_sublist str_toLowerCase_def sublist_def)
next
  assume "str_includes (str_toLowerCase ct) needle"
  then obtain ps ss where "map lower_unit ct = ps @ needle @ ss"
    by (auto simp: str_includes_sublist str_toLowerCase_def sublist_def)
  then obtain pre rest where 1: "ct = pre @ rest" "needle @ ss = map lower_unit rest"
    unfolding map_eq_append_conv by blast
  from 1(2) have "map lower_unit rest = needle @ ss" by simp
  then obtain mid post where 2: "rest = mid @ post" "needle = map lower_unit mid"
    unfolding map_eq_append_conv by blast
  from 1 2 assms have "ct = pre @ mid @ post \<and> map lower_unit mid = map lower_unit needle"
    by simp
  then show "declares (Some ct) needle"
    unfolding declares_def by blast
qed

lemma declares_None [simp]: "\<not> declares None needle"
  by (simp add: declares_def)

lemma declares_empty: "needle \<noteq> [] \<Longrightarrow> \<not> declares (Some []) needle"
  by (auto simp: declares_def)

lemma media_types_lower:
  "map lower_unit (js ''application/json'') = js ''application/json''"
  "map lower_unit (js ''application/x-www-form-urlencoded'') = js ''application/x-www-form-urlencoded''"
  "map lower_unit (js ''multipart/form-data'') = js ''multipart/form-data''"
  "map lower_unit (js ''application/xml'') = js ''application/xml''"
  "map lower_unit (js ''text/xml'') = js ''text/xml''"
  by (simp_all add: js_def lower_unit_def)

lemma media_types_nonempty:
  "js ''application/json'' \<noteq> []"
  "js ''application/x-www-form-urlencoded'' \<noteq> []"
  "js ''multipart/form-data'' \<noteq> []"
  "js ''application/xml'' \<noteq> []"
  "js ''text/xml'' \<noteq> []"
  by (simp_all add: js_def)

lemma queryRegex_empty: "[] \<in> lang queryRegex"
  by (simp add: queryRegex_def star_nil)

lemma determineBodyType_by_spec:
  "bodyType st = None \<longrightarrow>
     determineBodyType b (map_option str_toLowerCase contentType) st =
       (case format_by_spec contentType b of
          Some t \<Rightarrow> (Returns (), emit (ApiLog (Some t)) (st\<lparr>bodyType := Some t\<rparr>))
        | None \<Rightarrow> (Throws UnsupportedFormat, st)) \<and>
     [] \<in> lang queryRegex"
proof
  assume fresh: "bodyType st = None"
  have e: "[] \<in> lang queryRegex" by (rule queryRegex_empty)
  have "determineBodyType b (map_option str_toLowerCase contentType) st =
       (case format_by_spec contentType b of
          Some t \<Rightarrow> (Returns (), emit (ApiLog (Some t)) (st\<lparr>bodyType := Some t\<rparr>))
        | None \<Rightarrow> (Throws UnsupportedFormat, st))"
  proof (cases contentType)
    case None
    with fresh show ?thesis
      by (simp add: determineBodyType_def format_by_spec_def Let_def isJSONBody_def isQueryBody_def
          rexp_test_lang isXMLBody_xml_like)
  next
    case (Some ct)
    show ?thesis
    proof (cases "ct = []")
      case True
      with Some fresh show ?thesis
        by (simp add: determineBodyType_def format_by_spec_def Let_def isJSONBody_def isQueryBody_def
            rexp_test_lang isXMLBody_xml_like declares_empty media_types_nonempty str_toLowerCase_def)
    next
      case False
      then have "str_toLowerCase ct \<noteq> []" by (simp add: str_toLowerCase_def)
      with Some fresh show ?thesis
        by (simp add: determineBodyType_def format_by_spec_def Let_def isJSONBody_def isQueryBody_def
            rexp_test_lang isXMLBody_xml_like declares_includes media_types_lower)
    qed
  qed
  with e show "determineBodyType b (map_option str_toLowerCase contentType) st =
       (case format_by_spec contentType b of
          Some t \<Rightarrow> (Returns (), emit (ApiLog (Some t)) (st\<lparr>bodyType := Some t\<rparr>))
        | None \<Rightarrow> (Throws UnsupportedFormat, st)) \<and>
     [] \<in> lang queryRegex" by simp
qed

section \<open>What the body-surface strategy does to the instance\<close>

lemma handleJSONBody_result:
  "handleJSONBody env cfg r ps b st = (Throws BodyEncodingError, st) \<or>
   (\<exists>b'. handleJSONBody env cfg r ps b st =
       (Returns (), set_header r (js ''content-type'') [js ''application/json''] (set_body r b' st)))"
  unfolding handleJSONBody_def by (auto split: option.splits)

lemma handleQueryBody_result:
  "handleQueryBody r ps b st = (Throws URIError, st) \<or>
   (\<exists>b'. handleQueryBody r ps b st =
       (Returns (), set_header r (js ''content-type'') [js ''application/x-www-form-urlencoded'']
          (set_body r b' st)))"
  unfolding handleQueryBody_def Let_def by (auto split: option.splits)

lemma handleMultipartBody_result:
  "(\<exists>e. handleMultipartBody r ps b st = (Throws e, st) \<and>
        e \<in> {MissingContentType, MissingBoundary, MalformedMultipartBody}) \<or>
   (\<exists>b' ct bd. handleMultipartBody r ps b st =
       (Returns (), (set_header r (js ''Content-Type'') [ct] (set_body r b' st))
          \<lparr>multipartBoundary := Some bd\<rparr>))"
  unfolding handleMultipartBody_def Let_def by (auto split: option.splits list.splits)

lemma determineBodyType_result:
  assumes "bodyType st = None"
  shows "(\<exists>t. determineBodyType b ct st = (Returns (), emit (ApiLog (Some t)) (st\<lparr>bodyType := Some t\<rparr>))) \<or>
   determineBodyType b ct st = (Throws UnsupportedFormat, st)"
  using assms unfolding determineBodyType_def Let_def
  by (auto split: option.splits)

lemma handleBodyParameters_cached:
  "bodyType st = Some t \<Longrightarrow>
   handleBodyParameters env cfg r ps st =
     (case t of
        Json \<Rightarrow> handleJSONBody env cfg r ps (req_body (requests st r)) st
      | Query \<Rightarrow> handleQueryBody r ps (req_body (requests st r)) st
      | Multipart \<Rightarrow> handleMultipartBody r ps (req_body (requests st r)) st
      | Xml \<Rightarrow> (Throws UnsupportedBodyFormat, st))"
  by (simp add: handleBodyParameters_def Let_def split: body_type.splits)

lemma encoders_keep_format:
  "bodyType (snd (handleJSONBody env cfg r ps b st)) = bodyType st"
  "events (snd (handleJSONBody env cfg r ps b st)) = events st"
  "bodyType (snd (handleQueryBody r ps b st)) = bodyType st"
  "events (snd (handleQueryBody r ps b st)) = events st"
  "bodyType (snd (handleMultipartBody r ps b st)) = bodyType st"
  "events (snd (handleMultipartBody r ps b st)) = events st"
  using handleJSONBody_result[of env cfg r ps b st] handleQueryBody_result[of r ps b st]
    handleMultipartBody_result[of r ps b st]
  by auto

lemma handleBodyParameters_cached_state:
  assumes "bodyType st = Some t"
  shows "bodyType (snd (handleBodyParameters env cfg r ps st)) = Some t"
    and "events (snd (handleBodyParameters env cfg r ps st)) = events st"
  using assms by (auto simp: handleBodyParameters_cached encoders_keep_format split: body_type.splits)

lemma handleBodyParameters_fresh:
  assumes fresh: "bodyType st = None"
  shows "bodyType (snd (handleBodyParameters env cfg r ps st)) =
         bodyType (snd (determineBodyType (req_body (requests st r))
            (map_option str_toLowerCase (header_first r (js ''Content-Type'') st)) st))"
proof -
  let ?d = "determineBodyType (req_body (requests st r))
            (map_option str_toLowerCase (header_first r (js ''Content-Type'') st)) st"
  from determineBodyType_result[OF \<open>bodyType st = None\<close>, of "req_body (requests st r)"]
  consider t where "?d = (Returns (), emit (ApiLog (Some t)) (st\<lparr>bodyType := Some t\<rparr>))"
    | "?d = (Throws UnsupportedFormat, st)" by blast
  then show ?thesis
  proof cases
    case 1
    with fresh show ?thesis
      by (cases t) (simp_all add: handleBodyParameters_def Let_def encoders_keep_format)
  next
    case 2
    with fresh show ?thesis by (simp add: handleBodyParameters_def Let_def)
  qed
qed

lemma handleBodyParameters_determinations:
  "determinations (snd (handleBodyParameters env cfg r ps st)) =
     (if bodyType st = None \<and> bodyType (snd (handleBodyParameters env cfg r ps st)) \<noteq> None
      then Suc (determinations st) else determinations st)"
proof (cases "bodyType st")
  case None
  let ?d = "determineBodyType (req_body (requests st r))
            (map_option str_toLowerCase (header_first r (js ''Content-Type'') st)) st"
  from determineBodyType_result[OF \<open>bodyType st = None\<close>, of "req_body (requests st r)"]
  consider t where "?d = (Returns (), emit (ApiLog (Some t)) (st\<lparr>bodyType := Some t\<rparr>))"
    | "?d = (Throws UnsupportedFormat, st)" by blast
  then show ?thesis
  proof cases
    case 1
    with None show ?thesis
      by (cases t) (simp_all add: handleBodyParameters_def Let_def encoders_keep_format determinations_def)
  next
    case 2
    with None show ?thesis by (simp add: handleBodyParameters_def Let_def)
  qed
next
  case (Some t)
  then show ?thesis
    by (simp add: handleBodyParameters_cached_state determinations_def)
qed

lemma bodyInjections_cached:
  "bodyType st = Some t \<Longrightarrow>
     bodyType (bodyInjections calls st) = Some t \<and> events (bodyInjections calls st) = events st"
proof (induction calls arbitrary: st)
  case Nil
  then show ?case by simp
next
  case (Cons c calls)
  obtain env cfg r ps where c: "c = (env, cfg, r, ps)" by (cases c) auto
  from Cons.prems have "bodyType (snd (handleBodyParameters env cfg r ps st)) = Some t"
    and e: "events (snd (handleBodyParameters env cfg r ps st)) = events st"
    by (simp_all add: handleBodyParameters_cached_state)
  from Cons.IH[OF this(1)] e show ?case by (simp add: c)
qed

lemma bodyInjections_determinations:
  "determinations (bodyInjections calls st) \<le>
     determinations st + (if bodyType st = None then 1 else 0)"
proof (induction calls arbitrary: st)
  case Nil
  then show ?case by simp
next
  case (Cons c calls)
  obtain env cfg r ps where c: "c = (env, cfg, r, ps)" by (cases c) auto
  let ?st1 = "snd (handleBodyParameters env cfg r ps st)"
  have step: "determinations ?st1 =
     (if bodyType st = None \<and> bodyType ?st1 \<noteq> None then Suc (determinations st) else determinations st)"
    by (rule handleBodyParameters_determinations)
  have ih: "determinations (bodyInjections calls ?st1) \<le>
     determinations ?st1 + (if bodyType ?st1 = None then 1 else 0)"
    by (rule Cons.IH)
  show ?case
  proof (cases "bodyType st")
    case None
    with step ih show ?thesis by (auto simp: c split: if_splits)
  next
    case (Some t)
    then have "bodyType ?st1 = Some t" by (simp add: handleBodyParameters_cached_state)
    with Some step ih show ?thesis by (auto simp: c)
  qed
qed

lemma handleBodyParameters_failure:
  assumes "fst (handleBodyParameters env cfg r ps st) = Throws e"
  shows "(bodyType st \<noteq> None \<or> e = UnsupportedFormat) \<and> snd (handleBodyParameters env cfg r ps st) = st \<or>
         bodyType st = None \<and> e \<noteq> UnsupportedFormat \<and>
         (\<exists>t. snd (handleBodyParameters env cfg r ps st) = emit (ApiLog (Some t)) (st\<lparr>bodyType := Some t\<rparr>))"
proof (cases "bodyType st")
  case (Some t)
  with assms show ?thesis
    using handleJSONBody_result[of env cfg r ps "req_body (requests st r)" st]
      handleQueryBody_result[of r ps "req_body (requests st r)" st]
      handleMultipartBody_result[of r ps "req_body (requests st r)" st]
    by (cases t) (auto simp: handleBodyParameters_cached)
next
  case None
  let ?b = "req_body (requests st r)"
  let ?d = "determineBodyType ?b
            (map_option str_toLowerCase (header_first r (js ''Content-Type'') st)) st"
  from determineBodyType_result[OF None, of ?b]
  consider t where "?d = (Returns (), emit (ApiLog (Some t)) (st\<lparr>bodyType := Some t\<rparr>))"
    | "?d = (Throws UnsupportedFormat, st)" by blast
  then show ?thesis
  proof cases
    case 1
    let ?st1 = "emit (ApiLog (Some t)) (st\<lparr>bodyType := Some t\<rparr>)"
    from 1 None have run: "handleBodyParameters env cfg r ps st =
      (case t of
        Json \<Rightarrow> handleJSONBody env cfg r ps ?b ?st1
      | Query \<Rightarrow> handleQueryBody r ps ?b ?st1
      | Multipart \<Rightarrow> handleMultipartBody r ps ?b ?st1
      | Xml \<Rightarrow> (Throws UnsupportedBodyFormat, ?st1))"
      by (cases t) (simp_all add: handleBodyParameters_def Let_def)
    from assms run None show ?thesis
      using handleJSONBody_result[of env cfg r ps ?b ?st1]
        handleQueryBody_result[of r ps ?b ?st1]
        handleMultipartBody_result[of r ps ?b ?st1]
      by (cases t) auto
  next
    case 2
    with None assms show ?thesis by (simp add: handleBodyParameters_def Let_def)
  qed
qed

section \<open>Runs of the concrete requester\<close>

lemma determineBodyType_undeclared:
  "bodyType st = None \<Longrightarrow>
   bodyType (snd (determineBodyType b None st)) =
     (if isJSONBody b then Some Json else if isQueryBody b then Some Query
      else if isXMLBody b then Some Xml else None)"
  by (simp add: determineBodyType_def Let_def)

lemma isJSONBody_empty_object: "JSON_parse (js ''{}'') = Some (JObj [])"
  by (simp add: JSON_parse_def js_def lex_idle_def)

lemma isJSONBody_a_eq_b: "JSON_parse (js ''a=b'') = None"
  by (simp add: JSON_parse_def js_def lex_idle_def is_digit_def)

lemma isQueryBody_a_eq_b: "isQueryBody (js ''a=b'')"
  by (simp add: isQueryBody_def queryRegex_def js_def not_eq_amp_def)

lemma example_first_call:
  "bodyType (snd (handleBodyParameters example_env (example_config AttackBody) 2 []
      (example_store None (js ''{}'')))) = Some Json"
  by (simp add: handleBodyParameters_fresh determineBodyType_undeclared isJSONBody_def
      isJSONBody_empty_object)

lemma isJSONBody_xml: "JSON_parse (js ''<a>'') = None"
  by (simp add: JSON_parse_def js_def lex_idle_def is_digit_def)

lemma isQueryBody_xml: "\<not> isQueryBody (js ''<a>'')"
  by (simp add: isQueryBody_def queryRegex_def js_def not_eq_amp_def)

lemma isXMLBody_xml: "isXMLBody (js ''<a>'')"
  by (simp add: isXMLBody_def xmlRootRegex_def str_trim_def is_js_space_def js_def Let_def)

lemma example_xml_call:
  "handleBodyParameters example_env (example_config AttackBody) 2 [] (example_store None (js ''<a>'')) =
     (Throws UnsupportedBodyFormat,
      emit (ApiLog (Some Xml)) ((example_store None (js ''<a>''))\<lparr>bodyType := Some Xml\<rparr>))"
  by (simp add: handleBodyParameters_def determineBodyType_def Let_def isJSONBody_def
      isJSONBody_xml isQueryBody_xml isXMLBody_xml)

lemma example_json_root_call:
  "handleJSONBody example_env (example_config AttackBody) 2 [] (js ''{}'') st =
     (Returns (), set_header 2 (js ''content-type'') [js ''application/json'']
        (set_body 2 (js ''{}'') st))"
proof -
  have ne: "js ''{}'' \<noteq> []" by (simp add: js_def)
  have s: "js ''{'' @ js ''}'' = js ''{}''" by (simp add: js_def)
  show ?thesis
    by (simp add: handleJSONBody_def ne isJSONBody_empty_object example_config_def
        injectAtRoot_def example_env_def s)
qed

lemma example_query_dispatch:
  "sendRequestWithParams example_env (example_config AttackQuery) 2 [] context (example_store None []) =
     (Returns [],
      (if context = Some (js ''discovery'')
       then emit ConsoleLog o emit (AutopilotCheck []) else id)
      (emit (SendRequest \<lparr>sent_ident = js ''id-2'',
                sent_context = Some (case context of None \<Rightarrow> js ''discovery'' | Some c \<Rightarrow> c),
                sent_query = js ''q=1&'', sent_body = [], sent_headers = Map.empty\<rparr>)
        (delete_header 4 (js ''Content-Length'')
          (set_query 4 (js ''q=1&'')
            (emit (EmitDebug 0) (snd (clone_request example_env 2 context (example_store None []))))))))"
proof -
  have q: "js ''q=1'' \<noteq> []" "js ''q=1'' @ js ''&'' = js ''q=1&''" by (simp_all add: js_def)
  show ?thesis
    apply (simp add: sendRequestWithParams_def injectionStrategy_def handleQueryParameters_def
        example_config_def clone_request_def Let_def updateContentLength_def q)
    apply (simp add: example_env_def request_value_of_def header_values_def q)
    done
qed

lemma JSON_parse_hello: "JSON_parse (js ''hello'') = None"
  by (simp add: JSON_parse_def js_def lex_idle_def is_digit_def)

lemma isQueryBody_hello: "\<not> isQueryBody (js ''hello'')"
  by (simp add: isQueryBody_def queryRegex_def js_def not_eq_amp_def)

lemma isXMLBody_hello: "\<not> isXMLBody (js ''hello'')"
  by (simp add: isXMLBody_def xmlRootRegex_def str_trim_def is_js_space_def js_def Let_def)

lemma example_hello_call:
  "handleBodyParameters example_env (example_config AttackBody) 2 [] (example_store None (js ''hello'')) =
     (Throws UnsupportedFormat, example_store None (js ''hello''))"
  by (simp add: handleBodyParameters_def determineBodyType_def Let_def isJSONBody_def
      JSON_parse_hello isQueryBody_hello isXMLBody_hello)

lemma example_second_call:
  "handleBodyParameters example_env (example_config AttackBody) 2 []
     (set_body 2 (js ''{}'') (example_store None (js ''hello''))) =
   handleJSONBody example_env (example_config AttackBody) 2 [] (js ''{}'')
     (emit (ApiLog (Some Json))
        ((set_body 2 (js ''{}'') (example_store None (js ''hello'')))\<lparr>bodyType := Some Json\<rparr>))"
  by (simp add: handleBodyParameters_def determineBodyType_def Let_def isJSONBody_def
      isJSONBody_empty_object header_first_def header_values_def)

section \<open>Which objects the operations write\<close>

lemma unchanged_below_refl [simp]: "unchanged_below n st st"
  by (simp add: unchanged_below_def)

lemma unchanged_below_trans:
  "unchanged_below n st st1 \<Longrightarrow> unchanged_below n st1 st2 \<Longrightarrow> unchanged_below n st st2"
  by (simp add: unchanged_below_def)

lemma frame_set_query:
  "private_above n rc st \<Longrightarrow>
     unchanged_below n st (set_query rc q st) \<and> private_above n rc (set_query rc q st)"
  by (auto simp: unchanged_below_def private_above_def)

lemma frame_set_body:
  "private_above n rc st \<Longrightarrow>
     unchanged_below n st (set_body rc b st) \<and> private_above n rc (set_body rc b st)"
  by (auto simp: unchanged_below_def private_above_def)

lemma frame_set_header:
  "private_above n rc st \<Longrightarrow>
     unchanged_below n st (set_header rc k vs st) \<and> private_above n rc (set_header rc k vs st)"
  by (auto simp: unchanged_below_def private_above_def set_header_objs)

lemma frame_delete_header:
  "private_above n rc st \<Longrightarrow>
     unchanged_below n st (delete_header rc k st) \<and> private_above n rc (delete_header rc k st)"
  by (auto simp: unchanged_below_def private_above_def)

lemma frame_emit:
  "private_above n rc st \<Longrightarrow>
     unchanged_below n st (emit e st) \<and> private_above n rc (emit e st)"
  by (auto simp: unchanged_below_def private_above_def)

lemma frame_instance_fields:
  "private_above n rc st \<Longrightarrow>
     unchanged_below n st (st\<lparr>bodyType := t\<rparr>) \<and> private_above n rc (st\<lparr>bodyType := t\<rparr>) \<and>
     unchanged_below n st (st\<lparr>multipartBoundary := m\<rparr>) \<and>
     private_above n rc (st\<lparr>multipartBoundary := m\<rparr>)"
  by (auto simp: unchanged_below_def private_above_def)

lemma keeps_refl: "private_above n rc st \<Longrightarrow> keeps n rc st st"
  by (simp add: keeps_def)

lemma keeps_trans: "keeps n rc st st1 \<Longrightarrow> keeps n rc st1 st2 \<Longrightarrow> keeps n rc st st2"
  by (auto simp: keeps_def intro: unchanged_below_trans)

lemma keeps_private: "keeps n rc st st' \<Longrightarrow> private_above n rc st'"
  by (simp add: keeps_def)

lemma keeps_primitives:
  assumes "private_above n rc st"
  shows "keeps n rc st (set_query rc q st)"
    and "keeps n rc st (set_body rc b st)"
    and "keeps n rc st (set_header rc k vs st)"
    and "keeps n rc st (delete_header rc k st)"
    and "keeps n rc st (emit e st)"
    and "keeps n rc st (st\<lparr>bodyType := t\<rparr>)"
    and "keeps n rc st (st\<lparr>multipartBoundary := m\<rparr>)"
  using assms frame_set_query[of n rc st q] frame_set_body[of n rc st b]
    frame_set_header[of n rc st k vs] frame_delete_header[of n rc st k]
    frame_emit[of n rc st e] frame_instance_fields[of n rc st t m]
  by (simp_all add: keeps_def)

lemma keeps_handleQueryParameters:
  assumes "private_above n rc st"
  shows "keeps n rc st (snd (handleQueryParameters rc ps st))"
  using assms
  by (auto simp: handleQueryParameters_def Let_def keeps_refl keeps_primitives split: option.splits)

lemma keeps_handleCacheBusterParameter:
  assumes "private_above n rc st"
  shows "keeps n rc st (handleCacheBusterParameter env rc st)"
  using assms by (simp add: handleCacheBusterParameter_def Let_def keeps_primitives)

lemma keeps_handleHeaderParameters:
  assumes "private_above n rc st"
  shows "keeps n rc st (handleHeaderParameters rc ps st)"
  using assms unfolding handleHeaderParameters_def
proof (induction ps arbitrary: st)
  case Nil
  then show ?case by (simp add: keeps_refl)
next
  case (Cons p ps)
  have 1: "keeps n rc st (set_header rc (param_name p) [param_value p] st)"
    using Cons.prems by (rule keeps_primitives)
  from Cons.IH[OF keeps_private[OF 1]] 1 show ?case
    by (auto intro: keeps_trans)
qed

lemma keeps_set_header_set_body:
  assumes "private_above n rc st"
  shows "keeps n rc st (set_header rc k vs (set_body rc b st))"
proof -
  have 1: "keeps n rc st (set_body rc b st)" using assms by (rule keeps_primitives)
  have 2: "keeps n rc (set_body rc b st) (set_header rc k vs (set_body rc b st))"
    using keeps_private[OF 1] by (rule keeps_primitives)
  from 1 2 show ?thesis by (rule keeps_trans)
qed

lemma keeps_handleJSONBody:
  assumes "private_above n rc st"
  shows "keeps n rc st (snd (handleJSONBody env cfg rc ps b st))"
  using handleJSONBody_result[of env cfg rc ps b st] assms
  by (auto simp: keeps_refl keeps_set_header_set_body)

lemma keeps_handleQueryBody:
  assumes "private_above n rc st"
  shows "keeps n rc st (snd (handleQueryBody rc ps b st))"
  using handleQueryBody_result[of rc ps b st] assms
  by (auto simp: keeps_refl keeps_set_header_set_body)

lemma keeps_handleMultipartBody:
  assumes "private_above n rc st"
  shows "keeps n rc st (snd (handleMultipartBody rc ps b st))"
proof -
  from handleMultipartBody_result[of rc ps b st]
  consider "snd (handleMultipartBody rc ps b st) = st"
    | b' ct bd where "snd (handleMultipartBody rc ps b st) =
        (set_header rc (js ''Content-Type'') [ct] (set_body rc b' st))\<lparr>multipartBoundary := Some bd\<rparr>"
    by auto
  then show ?thesis
  proof cases
    case 1
    with assms show ?thesis by (simp add: keeps_refl)
  next
    case 2
    have a: "keeps n rc st (set_header rc (js ''Content-Type'') [ct] (set_body rc b' st))"
      using assms by (rule keeps_set_header_set_body)
    have "keeps n rc (set_header rc (js ''Content-Type'') [ct] (set_body rc b' st))
            ((set_header rc (js ''Content-Type'') [ct] (set_body rc b' st))\<lparr>multipartBoundary := Some bd\<rparr>)"
      using keeps_private[OF a] by (rule keeps_primitives)
    with a 2 show ?thesis by (auto intro: keeps_trans)
  qed
qed

lemma keeps_handleBodyParameters:
  assumes p: "private_above n rc st"
  shows "keeps n rc st (snd (handleBodyParameters env cfg rc ps st))"
proof (cases "bodyType st")
  case (Some t)
  with p show ?thesis
    by (cases t)
      (simp_all add: handleBodyParameters_cached keeps_handleJSONBody keeps_handleQueryBody
        keeps_handleMultipartBody keeps_refl)
next
  case None
  let ?b = "req_body (requests st rc)"
  let ?d = "determineBodyType ?b
            (map_option str_toLowerCase (header_first rc (js ''Content-Type'') st)) st"
  from determineBodyType_result[OF None, of ?b]
  consider t where "?d = (Returns (), emit (ApiLog (Some t)) (st\<lparr>bodyType := Some t\<rparr>))"
    | "?d = (Throws UnsupportedFormat, st)" by blast
  then show ?thesis
  proof cases
    case 1
    let ?st1 = "emit (ApiLog (Some t)) (st\<lparr>bodyType := Some t\<rparr>)"
    have a: "keeps n rc st (st\<lparr>bodyType := Some t\<rparr>)" using p by (rule keeps_primitives)
    have "keeps n rc (st\<lparr>bodyType := Some t\<rparr>) ?st1"
      using keeps_private[OF a] by (rule keeps_primitives)
    with a have k1: "keeps n rc st ?st1" by (rule keeps_trans)
    from 1 None have run: "handleBodyParameters env cfg rc ps st =
      (case t of
        Json \<Rightarrow> handleJSONBody env cfg rc ps ?b ?st1
      | Query \<Rightarrow> handleQueryBody rc ps ?b ?st1
      | Multipart \<Rightarrow> handleMultipartBody rc ps ?b ?st1
      | Xml \<Rightarrow> (Throws UnsupportedBodyFormat, ?st1))"
      by (cases t) (simp_all add: handleBodyParameters_def Let_def)
    have "keeps n rc ?st1 (snd (handleBodyParameters env cfg rc ps st))"
      unfolding run using keeps_private[OF k1]
      by (cases t)
        (simp_all add: keeps_handleJSONBody keeps_handleQueryBody keeps_handleMultipartBody keeps_refl)
    with k1 show ?thesis by (rule keeps_trans)
  next
    case 2
    with None p show ?thesis by (simp add: handleBodyParameters_def Let_def keeps_refl)
  qed
qed

lemma keeps_updateContentLength:
  assumes "private_above n rc st"
  shows "keeps n rc st (updateContentLength rc st)"
  using assms by (simp add: updateContentLength_def Let_def keeps_primitives)

lemma keeps_clone_request:
  "keeps (lim st) (fst (clone_request env r context st)) st (snd (clone_request env r context st))"
  by (auto simp: clone_request_def Let_def keeps_def unchanged_below_def private_above_def)

lemma keeps_injectionStrategy:
  assumes p: "private_above n rc st"
  shows "keeps n rc st (snd (injectionStrategy env cfg rc ps st))"
proof (cases "attackType cfg")
  case AttackQuery
  have a: "keeps n rc st (snd (handleQueryParameters rc ps st))"
    using p by (rule keeps_handleQueryParameters)
  have b: "keeps n rc (snd (handleQueryParameters rc ps st))
             (handleCacheBusterParameter env rc (snd (handleQueryParameters rc ps st)))"
    using keeps_private[OF a] by (rule keeps_handleCacheBusterParameter)
  obtain out s where hq: "handleQueryParameters rc ps st = (out, s)"
    by (cases "handleQueryParameters rc ps st")
  show ?thesis
    using a b hq AttackQuery
    by (cases out) (auto simp: injectionStrategy_def Let_def intro: keeps_trans)
next
  case AttackHeaders
  have a: "keeps n rc st (handleHeaderParameters rc ps st)"
    using p by (rule keeps_handleHeaderParameters)
  have b: "keeps n rc (handleHeaderParameters rc ps st)
             (handleCacheBusterParameter env rc (handleHeaderParameters rc ps st))"
    using keeps_private[OF a] by (rule keeps_handleCacheBusterParameter)
  show ?thesis
    using a b AttackHeaders by (auto simp: injectionStrategy_def Let_def intro: keeps_trans)
next
  case AttackBody
  then show ?thesis
    using p by (simp add: injectionStrategy_def keeps_handleBodyParameters)
qed

lemma sendRequestWithParams_state:
  "\<exists>rc st3. keeps (lim st) rc st st3 \<and>
     (snd (sendRequestWithParams env cfg r ps context st) = st3 \<or>
      (\<exists>es. snd (sendRequestWithParams env cfg r ps context st) = st3\<lparr>events := es\<rparr>))"
proof -
  let ?n = "lim st"
  obtain rc st1 where cl: "clone_request env r context st = (rc, st1)"
    by (cases "clone_request env r context st")
  have k1: "keeps ?n rc st st1" using keeps_clone_request[of st env r "context"] cl by simp
  let ?st2 = "emit (EmitDebug (length ps)) st1"
  have k2: "keeps ?n rc st ?st2"
    using k1 keeps_primitives(5)[OF keeps_private[OF k1]] by (blast intro: keeps_trans)
  obtain out st3 where inj: "injectionStrategy env cfg rc ps ?st2 = (out, st3)"
    by (cases "injectionStrategy env cfg rc ps ?st2")
  have "keeps ?n rc ?st2 st3"
    using keeps_injectionStrategy[OF keeps_private[OF k2], of env cfg ps] inj by simp
  with k2 have k3: "keeps ?n rc st st3" by (rule keeps_trans)
  show ?thesis
  proof (cases out)
    case (Throws e)
    have "snd (sendRequestWithParams env cfg r ps context st) = st3"
      using cl inj Throws by (simp add: sendRequestWithParams_def)
    with k3 show ?thesis by blast
  next
    case (Returns u)
    let ?st4 = "(if updateContentLength_flag cfg then updateContentLength rc st3 else st3)"
    have k4: "keeps ?n rc st ?st4"
      using k3 keeps_updateContentLength[OF keeps_private[OF k3]]
      by (auto intro: keeps_trans)
    have "\<exists>es. snd (sendRequestWithParams env cfg r ps context st) = ?st4\<lparr>events := es\<rparr>"
      using cl inj Returns by (auto simp: sendRequestWithParams_def Let_def emit_def)
    with k4 show ?thesis by blast
  qed
qed

section \<open>Objects, assignment and the JSON encoder\<close>

lemma keys_image: "fst ` set ms = set (map fst ms)"
  by simp

lemma key_in: "(k, v) \<in> set ms \<Longrightarrow> k \<in> fst ` set ms"
  by force

lemma map_of_obj_update:
  "map_of (obj_update k v ms) = (if k \<in> set (map fst ms) then (map_of ms)(k \<mapsto> v) else map_of ms)"
  by (induction ms) (auto simp: fun_eq_iff dest: key_in)

lemma map_of_obj_insert:
  "k \<notin> set (map fst ms) \<Longrightarrow> map_of (obj_insert k v ms) = (map_of ms)(k \<mapsto> v)"
  by (induction ms) (auto simp: fun_eq_iff)

lemma map_of_obj_define: "map_of (obj_define k v ms) = (map_of ms)(k \<mapsto> v)"
  unfolding obj_define_def keys_image
  by (simp add: map_of_obj_update map_of_obj_insert)

lemma keys_obj_update: "map fst (obj_update k v ms) = map fst ms"
  by (induction ms) auto

lemma keys_obj_insert: "set (map fst (obj_insert k v ms)) = insert k (set (map fst ms))"
proof (induction ms)
  case Nil
  show ?case by simp
next
  case (Cons m ms)
  obtain k' v' where m: "m = (k', v')" by (cases m)
  show ?case
  proof (cases "is_index k \<and> (\<not> is_index k' \<or> digits_value k < digits_value k')")
    case True
    then show ?thesis unfolding m by (simp del: set_map)
  next
    case False
    then have "obj_insert k v (m # ms) = (k', v') # obj_insert k v ms"
      unfolding m by auto
    then have "set (map fst (obj_insert k v (m # ms))) = insert k' (set (map fst (obj_insert k v ms)))"
      by simp
    also have "\<dots> = insert k' (insert k (set (map fst ms)))"
      unfolding Cons.IH ..
    finally show ?thesis unfolding m by auto
  qed
qed

lemma distinct_obj_insert:
  "k \<notin> set (map fst ms) \<Longrightarrow> distinct (map fst ms) \<Longrightarrow> distinct (map fst (obj_insert k v ms))"
proof (induction ms)
  case Nil
  then show ?case by simp
next
  case (Cons m ms)
  obtain k' v' where m: "m = (k', v')" by (cases m)
  from Cons.prems m have "k' \<notin> set (map fst (obj_insert k v ms))"
    unfolding keys_obj_insert by auto
  with Cons m show ?case by auto
qed

lemma distinct_obj_define:
  "distinct (map fst ms) \<Longrightarrow> distinct (map fst (obj_define k v ms))"
  unfolding obj_define_def keys_image
  by (simp add: keys_obj_update distinct_obj_insert)

lemma map_of_obj_set:
  "k' \<noteq> js ''__proto__'' \<Longrightarrow> map_of (obj_set k v ms) k' = ((map_of ms)(k \<mapsto> v)) k'"
  by (auto simp: obj_set_def map_of_obj_define)

lemma assign_all_object:
  "assign_all len kvs (JObj ms) =
     Some (JObj (foldl (\<lambda>m kv. obj_set (fst kv) (JStr (snd kv)) m) ms kvs))"
  by (induction kvs arbitrary: ms) auto

lemma map_of_assigned:
  assumes "k \<noteq> js ''__proto__''"
  shows "map_of (foldl (\<lambda>m kv. obj_set (fst kv) (JStr (snd kv)) m) ms kvs) k =
         (case map_of (rev kvs) k of Some v \<Rightarrow> Some (JStr v) | None \<Rightarrow> map_of ms k)"
proof (induction kvs arbitrary: ms)
  case Nil
  then show ?case by simp
next
  case (Cons kv kvs)
  obtain k1 v1 where kv: "kv = (k1, v1)" by (cases kv)
  show ?case
    using assms by (simp add: Cons.IH kv map_of_append map_add_def map_of_obj_set split: option.splits)
qed

lemma paramsToInject_distinct:
  "distinct (map fst acc) \<Longrightarrow>
   distinct (map fst (foldl (\<lambda>acc param. obj_define (param_name param) (param_value param) acc) acc ps))"
  by (induction ps arbitrary: acc) (simp_all add: distinct_obj_define)

lemma paramsToInject_map_of:
  "map_of (foldl (\<lambda>acc param. obj_define (param_name param) (param_value param) acc) acc ps) k =
     (case last_value ps k of Some v \<Rightarrow> Some v | None \<Rightarrow> map_of acc k)"
proof (induction ps arbitrary: acc)
  case Nil
  then show ?case by (simp add: last_value_def)
next
  case (Cons p ps)
  show ?case
    by (simp add: Cons.IH last_value_def map_of_append map_add_def map_of_obj_define
        split: option.splits)
qed

lemma map_of_rev_distinct: "distinct (map fst xs) \<Longrightarrow> map_of (rev xs) = map_of xs"
proof (induction xs)
  case Nil
  then show ?case by simp
next
  case (Cons x xs)
  obtain k v where x: "x = (k, v)" by (cases x)
  from Cons.prems x have nk: "k \<notin> fst ` set xs" by (simp add: image_iff)
  then have "map_of xs k = None" by (simp add: map_of_eq_None_iff)
  with Cons x show ?case
    by (auto simp: fun_eq_iff map_of_append map_add_def split: option.splits)
qed

lemma JSON_parse_empty: "JSON_parse [] = None"
  by (simp add: JSON_parse_def)

lemma node_at_replace_at:
  "node_at loc doc = Some old \<Longrightarrow> node_at loc (replace_at loc doc new) = Some new"
proof (induction loc arbitrary: doc)
  case Nil
  then show ?case by simp
next
  case (Cons s loc)
  show ?case
  proof (cases s)
    case (Key k)
    with Cons.prems obtain ms v' where d: "doc = JObj ms" "map_of ms k = Some v'" "node_at loc v' = Some old"
      by (cases doc) (auto split: option.splits)
    from d(2) have "k \<in> set (map fst ms)" by (metis map_of_eq_None_iff option.distinct(1) set_map)
    then have "map_of (obj_update k (replace_at loc v' new) ms) k = Some (replace_at loc v' new)"
      by (simp add: map_of_obj_update del: set_map)
    with Cons.IH[OF d(3)] d Key show ?thesis by simp
  next
    case (Idx i)
    with Cons.prems obtain es where d: "doc = JArr es" "i < length es" "node_at loc (es ! i) = Some old"
      by (cases doc) (auto split: if_splits)
    with Cons.IH[OF d(3)] Idx show ?thesis by simp
  qed
qed

lemma injectAtRoot_object:
  "injectAtRoot env ps (JObj ms) =
     Some (JObj (foldl (\<lambda>m kv. obj_set (fst kv) (JStr (snd kv)) m) ms
                  (map (\<lambda>p. (param_name p, param_value p)) ps)))"
  by (simp add: injectAtRoot_def assign_all_object)

lemma injectAtRoot_null: "ps \<noteq> [] \<Longrightarrow> injectAtRoot env ps JNull = None"
  by (cases ps) (simp_all add: injectAtRoot_def)

lemma root_keys:
  assumes "k \<noteq> js ''__proto__''"
  shows "map_of (foldl (\<lambda>m kv. obj_set (fst kv) (JStr (snd kv)) m) ms
                  (map (\<lambda>p. (param_name p, param_value p)) ps)) k =
         (case last_value ps k of Some v \<Rightarrow> Some (JStr v) | None \<Rightarrow> map_of ms k)"
  using map_of_assigned[OF assms] by (simp add: last_value_def rev_map)

lemma path_keys:
  assumes "k \<noteq> js ''__proto__''"
  shows "map_of (foldl (\<lambda>m kv. obj_set (fst kv) (JStr (snd kv)) m) ms
            (foldl (\<lambda>acc param. obj_define (param_name param) (param_value param) acc) [] ps)) k =
         (case last_value ps k of Some v \<Rightarrow> Some (JStr v) | None \<Rightarrow> map_of ms k)"
proof -
  let ?inj = "foldl (\<lambda>acc param. obj_define (param_name param) (param_value param) acc) [] ps"
  have "distinct (map fst ?inj)" by (rule paramsToInject_distinct) simp
  then have "map_of (rev ?inj) = map_of ?inj" by (rule map_of_rev_distinct)
  moreover have "map_of ?inj k = last_value ps k"
    by (simp add: paramsToInject_map_of split: option.splits)
  ultimately show ?thesis
    using map_of_assigned[OF assms, of ms ?inj] by simp
qed

lemma injectAtPath_object:
  assumes "JSONPath env (if str_startsWith p (js ''$'') then p else js ''$.'' @ p) doc = JPNode loc"
    and "node_at loc doc = Some (JObj ms)"
  shows "injectAtPath env p ps doc =
     Some (replace_at loc doc
       (JObj (foldl (\<lambda>m kv. obj_set (fst kv) (JStr (snd kv)) m) ms
            (foldl (\<lambda>acc param. obj_define (param_name param) (param_value param) acc) [] ps))))"
  using assms by (simp add: injectAtPath_def Let_def assign_all_object)

lemma injectAtPath_nothing:
  assumes "JSONPath env (if str_startsWith p (js ''$'') then p else js ''$.'' @ p) doc = JPUndefined \<or>
     (\<exists>loc. JSONPath env (if str_startsWith p (js ''$'') then p else js ''$.'' @ p) doc = JPNode loc \<and>
        (\<forall>ms. node_at loc doc \<noteq> Some (JObj ms)) \<and> (\<forall>es. node_at loc doc \<noteq> Some (JArr es)))"
  shows "injectAtPath env p ps doc = Some doc"
  using assms
  by (auto simp: injectAtPath_def Let_def split: option.splits json.splits)

lemma handleJSONBody_run:
  assumes "(if b \<noteq> [] then JSON_parse b else Some (JObj [])) = Some doc"
  shows "handleJSONBody env cfg r ps b st =
     (case (case jsonBodyPath cfg of
              Some (c # cs) \<Rightarrow> injectAtPath env (c # cs) ps doc
            | _ \<Rightarrow> injectAtRoot env ps doc) of
        None \<Rightarrow> (Throws BodyEncodingError, st)
      | Some doc' \<Rightarrow>
          (Returns (),
           set_header r (js ''content-type'') [js ''application/json'']
             (set_body r (JSON_stringify (number_text env) doc') st)))"
  using assms unfolding handleJSONBody_def by simp

section \<open>The boundary of a content type\<close>

lemma is_line_terminator_line_ends: "is_line_terminator c \<longleftrightarrow> c \<in> line_ends"
  by (simp add: is_line_terminator_def line_ends_def)

lemma length_boundary_eq [simp]: "length (js ''boundary='') = 9"
  by (simp add: js_def)

lemma prefix_take_iff: "prefix p s \<longleftrightarrow> take (length p) s = p"
  by (metis append_eq_conv_conj prefix_def take_is_prefix)

lemma takeWhile_nonempty: "takeWhile P xs \<noteq> [] \<longleftrightarrow> xs \<noteq> [] \<and> P (hd xs)"
  by (cases xs) auto

lemma boundaryMatch_head:
  "str_startsWith ct (js ''boundary='') \<and>
   takeWhile (\<lambda>x. \<not> is_line_terminator x) (drop 9 ct) \<noteq> [] \<longleftrightarrow> directive_at ct 0"
  by (auto simp: str_startsWith_prefix prefix_take_iff[of "js ''boundary=''"] takeWhile_nonempty directive_at_def
      is_line_terminator_line_ends hd_drop_conv_nth)

lemma directive_at_Suc: "directive_at (c # cs) (Suc j) \<longleftrightarrow> directive_at cs j"
  by (simp add: directive_at_def add.commute)

lemma no_directive_Cons:
  "(\<forall>j. \<not> directive_at (c # cs) j) \<longleftrightarrow> \<not> directive_at (c # cs) 0 \<and> (\<forall>j. \<not> directive_at cs j)"
  by (metis directive_at_Suc not0_implies_Suc)

lemma boundaryMatch_None_iff: "boundaryMatch ct = None \<longleftrightarrow> (\<forall>j. \<not> directive_at ct j)"
proof (induction ct)
  case Nil
  show ?case by (simp add: directive_at_def)
next
  case (Cons c cs)
  show ?case
    using boundaryMatch_head[of "c # cs"] Cons.IH no_directive_Cons[of c cs]
    by (auto simp: Let_def simp del: boundaryMatch_head)
qed

lemma takeWhile_value:
  "set b \<inter> line_ends = {} \<Longrightarrow> post = [] \<or> hd post \<in> line_ends \<Longrightarrow>
   takeWhile (\<lambda>x. \<not> is_line_terminator x) (b @ post) = b"
proof (induction b)
  case Nil
  then show ?case by (cases post) (auto simp: is_line_terminator_line_ends)
next
  case (Cons c b)
  then show ?case by (auto simp: is_line_terminator_line_ends)
qed

lemma boundaryMatch_leftmost:
  "ct = pre @ js ''boundary='' @ b @ post \<Longrightarrow> b \<noteq> [] \<Longrightarrow> set b \<inter> line_ends = {} \<Longrightarrow>
   post = [] \<or> hd post \<in> line_ends \<Longrightarrow> \<forall>j<length pre. \<not> directive_at ct j \<Longrightarrow>
   boundaryMatch ct = Some b"
proof (induction pre arbitrary: ct)
  case Nil
  then have ct: "ct = js ''boundary='' @ b @ post" by simp
  have d: "drop 9 ct = b @ post" unfolding ct by simp
  have s: "str_startsWith ct (js ''boundary='')" unfolding ct by (simp add: str_startsWith_prefix)
  have g: "takeWhile (\<lambda>x. \<not> is_line_terminator x) (drop 9 ct) = b"
    unfolding d using Nil.prems by (intro takeWhile_value) auto
  obtain c cs where cc: "ct = c # cs" using ct by (cases ct) (auto simp: js_def)
  show ?case using s g Nil.prems(2) unfolding cc by (simp add: Let_def)
next
  case (Cons p pre)
  let ?cs = "pre @ js ''boundary='' @ b @ post"
  have ct: "ct = p # ?cs" using Cons.prems(1) by simp
  have "\<not> directive_at ct 0" using Cons.prems(5) by simp
  then have h: "\<not> (str_startsWith (p # ?cs) (js ''boundary='') \<and>
     takeWhile (\<lambda>x. \<not> is_line_terminator x) (drop 9 (p # ?cs)) \<noteq> [])"
    using boundaryMatch_head[of ct] ct by simp
  have "\<forall>j<length pre. \<not> directive_at ?cs j"
    using Cons.prems(5) directive_at_Suc[of p ?cs] ct by auto
  from Cons.IH[OF refl Cons.prems(2,3,4) this] have "boundaryMatch ?cs = Some b" .
  with h show ?case unfolding ct by (auto simp: Let_def)
qed

section \<open>The cached body format\<close>

text \<open>
  A first body-surface call on the body \<open>hello\<close>, with no content type, fails in
  detection with UnsupportedFormat and stores nothing. The next call on the same
  instance, now with the body \<open>{}\<close>, therefore finds no cached format and runs
  detection again: it logs a determination and stores json. So not every call after the
  first one uses a stored format without detecting.
\<close>

theorem detection_runs_again_after_failure:
  "fst (handleBodyParameters example_env (example_config AttackBody) 2 []
          (example_store None (js ''hello''))) = Throws UnsupportedFormat \<and>
   bodyType (snd (handleBodyParameters example_env (example_config AttackBody) 2 []
          (example_store None (js ''hello'')))) = None \<and>
   determinations (snd (handleBodyParameters example_env (example_config AttackBody) 2 []
          (example_store None (js ''hello'')))) = 0 \<and>
   determinations (snd (handleBodyParameters example_env (example_config AttackBody) 2 []
      (set_body 2 (js ''{}'')
         (snd (handleBodyParameters example_env (example_config AttackBody) 2 []
            (example_store None (js ''hello''))))))) = 1 \<and>
   bodyType (snd (handleBodyParameters example_env (example_config AttackBody) 2 []
      (set_body 2 (js ''{}'')
         (snd (handleBodyParameters example_env (example_config AttackBody) 2 []
            (example_store None (js ''hello''))))))) = Some Json"
  by (simp add: example_hello_call example_second_call example_json_root_call determinations_def)

text \<open>
  Claim C1, amended. Once a format is stored on the instance, a body-surface call does
  not run detection: it is the call of the encoder of the stored format on the request,
  whatever the request's body and content type are, and it leaves the stored format and
  the number of logged determinations unchanged; so does every later sequence of
  body-surface calls. A call that finds no stored format stores what detection
  determines; when detection fails with UnsupportedFormat the instance is left as it was,
  with no format stored, so that the next call detects again. In any sequence of
  body-surface calls on one instance at most one detection succeeds.
\<close>

theorem body_format_determined_once:
  "(\<forall>t. bodyType st = Some t \<longrightarrow>
      handleBodyParameters env cfg request parameters st =
        (case t of
           Json \<Rightarrow> handleJSONBody env cfg request parameters (req_body (requests st request)) st
         | Query \<Rightarrow> handleQueryBody request parameters (req_body (requests st request)) st
         | Multipart \<Rightarrow> handleMultipartBody request parameters (req_body (requests st request)) st
         | Xml \<Rightarrow> (Throws UnsupportedBodyFormat, st)) \<and>
      bodyType (snd (handleBodyParameters env cfg request parameters st)) = Some t \<and>
      determinations (snd (handleBodyParameters env cfg request parameters st)) = determinations st \<and>
      bodyType (bodyInjections calls st) = Some t \<and>
      determinations (bodyInjections calls st) = determinations st) \<and>
   (bodyType st = None \<longrightarrow>
      bodyType (snd (handleBodyParameters env cfg request parameters st)) =
        bodyType (snd (determineBodyType (req_body (requests st request))
          (map_option str_toLowerCase (header_first request (js ''Content-Type'') st)) st))) \<and>
   (bodyType st = None \<and>
    fst (handleBodyParameters env cfg request parameters st) = Throws UnsupportedFormat \<longrightarrow>
      snd (handleBodyParameters env cfg request parameters st) = st) \<and>
   determinations (bodyInjections calls st) \<le>
     determinations st + (if bodyType st = None then 1 else 0)"
proof (intro conjI allI impI)
  fix t assume t: "bodyType st = Some t"
  show "handleBodyParameters env cfg request parameters st =
        (case t of
           Json \<Rightarrow> handleJSONBody env cfg request parameters (req_body (requests st request)) st
         | Query \<Rightarrow> handleQueryBody request parameters (req_body (requests st request)) st
         | Multipart \<Rightarrow> handleMultipartBody request parameters (req_body (requests st request)) st
         | Xml \<Rightarrow> (Throws UnsupportedBodyFormat, st))"
    by (rule handleBodyParameters_cached[OF t])
  show "bodyType (snd (handleBodyParameters env cfg request parameters st)) = Some t"
    by (rule handleBodyParameters_cached_state(1)[OF t])
  show "determinations (snd (handleBodyParameters env cfg request parameters st)) = determinations st"
    by (simp add: determinations_def handleBodyParameters_cached_state(2)[OF t])
  show "bodyType (bodyInjections calls st) = Some t"
    using bodyInjections_cached[OF t] by blast
  show "determinations (bodyInjections calls st) = determinations st"
    using bodyInjections_cached[OF t, of calls] by (simp add: determinations_def)
next
  assume "bodyType st = None"
  then show "bodyType (snd (handleBodyParameters env cfg request parameters st)) =
        bodyType (snd (determineBodyType (req_body (requests st request))
          (map_option str_toLowerCase (header_first request (js ''Content-Type'') st)) st))"
    by (rule handleBodyParameters_fresh)
next
  assume "bodyType st = None \<and>
    fst (handleBodyParameters env cfg request parameters st) = Throws UnsupportedFormat"
  then show "snd (handleBodyParameters env cfg request parameters st) = st"
    using handleBodyParameters_failure[of env cfg request parameters st UnsupportedFormat] by auto
next
  show "determinations (bodyInjections calls st) \<le>
     determinations st + (if bodyType st = None then 1 else 0)"
    by (rule bodyInjections_determinations)
qed


theorem body_format_determined_once_witness:
  "bodyType (snd (handleBodyParameters example_env (example_config AttackBody) 2 []
      (set_body 2 (js ''a=b'')
        (snd (handleBodyParameters example_env (example_config AttackBody) 2 []
           (example_store None (js ''{}''))))))) = Some Json \<and>
   bodyType (snd (handleBodyParameters example_env (example_config AttackBody) 2 []
      (example_store None (js ''a=b'')))) = Some Query"
proof -
  let ?st1 = "set_body 2 (js ''a=b'')
        (snd (handleBodyParameters example_env (example_config AttackBody) 2 []
           (example_store None (js ''{}''))))"
  have cached: "bodyType ?st1 = Some Json"
    using example_first_call by simp
  have fresh: "bodyType (example_store None (js ''a=b'')) = None" by simp
  from body_format_determined_once[of ?st1 example_env "example_config AttackBody" 2 "[]" "[]"] cached
  have 1: "bodyType (snd (handleBodyParameters example_env (example_config AttackBody) 2 [] ?st1)) = Some Json"
    by blast
  from body_format_determined_once[of "example_store None (js ''a=b'')" example_env
      "example_config AttackBody" 2 "[]" "[]"] fresh
  have "bodyType (snd (handleBodyParameters example_env (example_config AttackBody) 2 []
      (example_store None (js ''a=b'')))) =
     bodyType (snd (determineBodyType (js ''a=b'') None (example_store None (js ''a=b''))))"
    by simp
  then have 2: "bodyType (snd (handleBodyParameters example_env (example_config AttackBody) 2 []
      (example_store None (js ''a=b'')))) = Some Query"
    by (simp add: determineBodyType_undeclared isJSONBody_def isJSONBody_a_eq_b isQueryBody_a_eq_b)
  from 1 2 show ?thesis by simp
qed

section \<open>Content-Length\<close>

text \<open>
  Claim C6. \<open>updateContentLength\<close> removes the \<open>Content-Length\<close> header of an empty body
  and otherwise sets it to \<open>body.length\<close>, the number of UTF-16 code units of the body.
  For the one-character body U+00E9 the header becomes \<open>1\<close>, while the body has two
  octets in UTF-8.
\<close>

theorem updateContentLength_non_ascii_body:
  "header_values 2 (updateContentLength 2 (example_store None [0xE9])) (js ''Content-Length'') = Some [js ''1'']
   \<and> utf8_length (req_body (requests (example_store None [0xE9]) 2)) = 2"
proof -
  have "decimal (length [0xE9 :: code_unit]) = js ''1''"
    by (simp add: decimal.simps js_def)
  then show ?thesis
    by (simp add: updateContentLength_header)
qed

section \<open>The caller's request\<close>

text \<open>
  Claim C7. A call of the dispatcher changes no object that existed before the call:
  every request object, header object and array of header values below the allocation
  limit is afterwards what it was. For a request of the caller (allocated before the
  call, with its header object and the arrays of its header values) this means that its
  query string, body, identifier, header map and every header value sequence are
  unchanged, whether the call returns or throws. The dispatcher writes only to the
  clone it allocates and to that clone's header object.
\<close>

theorem dispatcher_works_on_a_clone:
  "unchanged_below (lim st) st (snd (sendRequestWithParams env cfg request parameters context st)) \<and>
   (request < lim st \<and> req_headers (requests st request) < lim st \<and>
    (\<forall>k a. header_objs st (req_headers (requests st request)) k = Some a \<longrightarrow> a < lim st) \<longrightarrow>
      requests (snd (sendRequestWithParams env cfg request parameters context st)) request =
        requests st request \<and>
      header_objs (snd (sendRequestWithParams env cfg request parameters context st))
          (req_headers (requests st request)) =
        header_objs st (req_headers (requests st request)) \<and>
      header_values request (snd (sendRequestWithParams env cfg request parameters context st)) =
        header_values request st \<and>
      request_value_of request (snd (sendRequestWithParams env cfg request parameters context st)) =
        request_value_of request st)"
proof -
  let ?st' = "snd (sendRequestWithParams env cfg request parameters context st)"
  from sendRequestWithParams_state[of st env cfg request parameters "context"]
  obtain rc st3 where k: "keeps (lim st) rc st st3"
    and s: "?st' = st3 \<or> (\<exists>es. ?st' = st3\<lparr>events := es\<rparr>)" by blast
  from k have "unchanged_below (lim st) st st3" by (simp add: keeps_def)
  with s have u: "unchanged_below (lim st) st ?st'"
    by (auto simp: unchanged_below_def)
  have "requests ?st' request = requests st request \<and>
      header_objs ?st' (req_headers (requests st request)) = header_objs st (req_headers (requests st request)) \<and>
      header_values request ?st' = header_values request st \<and>
      request_value_of request ?st' = request_value_of request st"
    if wf: "request < lim st \<and> req_headers (requests st request) < lim st \<and>
      (\<forall>k a. header_objs st (req_headers (requests st request)) k = Some a \<longrightarrow> a < lim st)"
  proof -
    from u wf have r: "requests ?st' request = requests st request"
      and h: "header_objs ?st' (req_headers (requests st request)) =
              header_objs st (req_headers (requests st request))"
      by (simp_all add: unchanged_below_def)
    have hv: "header_values request ?st' = header_values request st"
    proof
      fix k
      show "header_values request ?st' k = header_values request st k"
      proof (cases "header_objs st (req_headers (requests st request)) k")
        case None
        with r h show ?thesis by (simp add: header_values_def)
      next
        case (Some a)
        with wf have "a < lim st" by blast
        with u have "arrays ?st' a = arrays st a" by (simp add: unchanged_below_def)
        with Some r h show ?thesis by (simp add: header_values_def)
      qed
    qed
    from r h hv show ?thesis by (simp add: request_value_of_def)
  qed
  with u show ?thesis by blast
qed

theorem dispatcher_works_on_a_clone_witness:
  "request_value_of 2
     (snd (sendRequestWithParams example_env (example_config AttackBody) 2
        [example_parameter ''a'' ''1''] None (example_store (Some (js ''text/plain'')) (js ''{}'')))) =
   request_value_of 2 (example_store (Some (js ''text/plain'')) (js ''{}'')) \<and>
   requests
     (snd (sendRequestWithParams example_env (example_config AttackHeaders) 2
        [example_parameter ''Content-Type'' ''x''] None (example_store (Some (js ''text/plain'')) (js ''{}'')))) 2 =
   requests (example_store (Some (js ''text/plain'')) (js ''{}'')) 2 \<and>
   header_values 2
     (snd (sendRequestWithParams example_env (example_config AttackHeaders) 2
        [example_parameter ''Content-Type'' ''x''] None (example_store (Some (js ''text/plain'')) (js ''{}'')))) =
   header_values 2 (example_store (Some (js ''text/plain'')) (js ''{}''))"
proof -
  let ?st = "example_store (Some (js ''text/plain'')) (js ''{}'')"
  have wf: "2 < lim ?st \<and> req_headers (requests ?st 2) < lim ?st \<and>
    (\<forall>k a. header_objs ?st (req_headers (requests ?st 2)) k = Some a \<longrightarrow> a < lim ?st)"
    by (auto split: if_splits)
  from dispatcher_works_on_a_clone[of ?st example_env "example_config AttackBody" 2
      "[example_parameter ''a'' ''1'']" None] wf
  have 1: "request_value_of 2
     (snd (sendRequestWithParams example_env (example_config AttackBody) 2
        [example_parameter ''a'' ''1''] None ?st)) = request_value_of 2 ?st"
    by blast
  from dispatcher_works_on_a_clone[of ?st example_env "example_config AttackHeaders" 2
      "[example_parameter ''Content-Type'' ''x'']" None] wf
  have 2: "requests (snd (sendRequestWithParams example_env (example_config AttackHeaders) 2
        [example_parameter ''Content-Type'' ''x''] None ?st)) 2 = requests ?st 2 \<and>
     header_values 2 (snd (sendRequestWithParams example_env (example_config AttackHeaders) 2
        [example_parameter ''Content-Type'' ''x''] None ?st)) = header_values 2 ?st"
    by blast
  from 1 2 show ?thesis by blast
qed

section \<open>The decision callback\<close>

text \<open>
  Claim C8. The dispatcher tags its clone with the discovery context when the caller
  gives no context label, but it decides about the callback by comparing the caller's
  argument itself with \<open>"discovery"\<close>. On the concrete requester, with the autopilot
  enabled and no context label given, the request is sent tagged \<open>discovery\<close> and the
  callback is not invoked; with the label \<open>discovery\<close> given, it is invoked once.
\<close>

theorem autopilot_skipped_for_default_context:
  "autopilotEnabled (example_config AttackQuery) \<and>
   fst (sendRequestWithParams example_env (example_config AttackQuery) 2 [] None (example_store None [])) =
     Returns [] \<and>
   req_context (requests (snd (sendRequestWithParams example_env (example_config AttackQuery) 2 [] None
       (example_store None []))) 4) = Some (js ''discovery'') \<and>
   filter is_AutopilotCheck (events (snd (sendRequestWithParams example_env (example_config AttackQuery) 2 []
       None (example_store None [])))) = [] \<and>
   filter is_AutopilotCheck (events (snd (sendRequestWithParams example_env (example_config AttackQuery) 2 []
       (Some (js ''discovery'')) (example_store None [])))) = [AutopilotCheck []]"
  by (simp add: example_query_dispatch) (simp add: example_config_def clone_request_def Let_def)

section \<open>The instance after a failed body injection\<close>

text \<open>
  Claim C9 says that a body-surface call that fails leaves the cached body format and
  multipart boundary as they were. The code stores the detected format before it calls
  the encoder, so a first call that detects XML, and then fails because XML has no
  encoder, leaves \<open>xml\<close> cached on an instance that had nothing cached.
\<close>

theorem failed_body_injection_changes_cache:
  "fst (handleBodyParameters example_env (example_config AttackBody) 2 []
          (example_store None (js ''<a>''))) = Throws UnsupportedBodyFormat \<and>
   bodyType (example_store None (js ''<a>'')) = None \<and>
   bodyType (snd (handleBodyParameters example_env (example_config AttackBody) 2 []
          (example_store None (js ''<a>'')))) = Some Xml"
  by (simp add: example_xml_call)

text \<open>
  Claim C9, amended. A body-surface call that fails changes no request, no header
  object, no array and not the cached multipart boundary. It leaves the whole state as
  it was when a format was cached before the call, or when the failure is
  \<open>UnsupportedFormat\<close> from detection. When the call ran detection and failed after it,
  the detected format is cached.
\<close>

theorem failed_body_injection_state:
  "fst (handleBodyParameters env cfg request parameters st) = Throws e \<longrightarrow>
     multipartBoundary (snd (handleBodyParameters env cfg request parameters st)) = multipartBoundary st \<and>
     requests (snd (handleBodyParameters env cfg request parameters st)) = requests st \<and>
     header_objs (snd (handleBodyParameters env cfg request parameters st)) = header_objs st \<and>
     arrays (snd (handleBodyParameters env cfg request parameters st)) = arrays st \<and>
     (bodyType st \<noteq> None \<or> e = UnsupportedFormat \<longrightarrow>
        snd (handleBodyParameters env cfg request parameters st) = st) \<and>
     (bodyType st = None \<and> e \<noteq> UnsupportedFormat \<longrightarrow>
        (\<exists>t. bodyType (snd (handleBodyParameters env cfg request parameters st)) = Some t \<and>
             bodyType (snd (determineBodyType (req_body (requests st request))
               (map_option str_toLowerCase (header_first request (js ''Content-Type'') st)) st)) = Some t))"
proof
  assume f: "fst (handleBodyParameters env cfg request parameters st) = Throws e"
  let ?st' = "snd (handleBodyParameters env cfg request parameters st)"
  from handleBodyParameters_failure[OF f]
  consider "bodyType st \<noteq> None \<or> e = UnsupportedFormat" "?st' = st"
    | t where "bodyType st = None" "e \<noteq> UnsupportedFormat"
        "?st' = emit (ApiLog (Some t)) (st\<lparr>bodyType := Some t\<rparr>)"
    by blast
  then show "multipartBoundary ?st' = multipartBoundary st \<and>
     requests ?st' = requests st \<and> header_objs ?st' = header_objs st \<and> arrays ?st' = arrays st \<and>
     (bodyType st \<noteq> None \<or> e = UnsupportedFormat \<longrightarrow> ?st' = st) \<and>
     (bodyType st = None \<and> e \<noteq> UnsupportedFormat \<longrightarrow>
        (\<exists>t. bodyType ?st' = Some t \<and>
             bodyType (snd (determineBodyType (req_body (requests st request))
               (map_option str_toLowerCase (header_first request (js ''Content-Type'') st)) st)) = Some t))"
  proof cases
    case 1
    then show ?thesis by auto
  next
    case 2
    from 2(3) have t: "bodyType ?st' = Some t" by simp
    from 2(1) have "bodyType ?st' = bodyType (snd (determineBodyType (req_body (requests st request))
               (map_option str_toLowerCase (header_first request (js ''Content-Type'') st)) st))"
      by (rule handleBodyParameters_fresh)
    with t have d: "bodyType (snd (determineBodyType (req_body (requests st request))
               (map_option str_toLowerCase (header_first request (js ''Content-Type'') st)) st)) = Some t"
      by simp
    have frame: "multipartBoundary ?st' = multipartBoundary st" "requests ?st' = requests st"
      "header_objs ?st' = header_objs st" "arrays ?st' = arrays st"
      using 2(3) by simp_all
    from t d frame 2(1,2) show ?thesis by blast
  qed
qed

theorem failed_body_injection_state_witness:
  "multipartBoundary (snd (handleBodyParameters example_env (example_config AttackBody) 2 []
          (example_store None (js ''<a>'')))) = None \<and>
   requests (snd (handleBodyParameters example_env (example_config AttackBody) 2 []
          (example_store None (js ''<a>'')))) = requests (example_store None (js ''<a>'')) \<and>
   (\<exists>t. bodyType (snd (handleBodyParameters example_env (example_config AttackBody) 2 []
          (example_store None (js ''<a>'')))) = Some t)"
proof -
  have f: "fst (handleBodyParameters example_env (example_config AttackBody) 2 []
          (example_store None (js ''<a>''))) = Throws UnsupportedBodyFormat"
    by (simp add: example_xml_call)
  have n: "bodyType (example_store None (js ''<a>'')) = None \<and> UnsupportedBodyFormat \<noteq> UnsupportedFormat"
    by simp
  from failed_body_injection_state[of example_env "example_config AttackBody" 2 "[]"
      "example_store None (js ''<a>'')" UnsupportedBodyFormat] f n
  show ?thesis by auto
qed

end
